theory Spec2Isabelle
  imports Main "HOL-Library.Sublist"
begin

section \<open>Strings as the program sees them\<close>

text \<open>
  The server is a single TypeScript file, \<^verbatim>\<open>src/index.ts\<close>. Its strings are modelled as
  \<^typ>\<open>string\<close>; every string the functions below inspect (command output of git, path
  names, URL parameters) is compared character by character, so only the positions of the
  separators \<^verbatim>\<open>/\<close>, newline, and the white space removed by \<^verbatim>\<open>trim()\<close> matter.
\<close>

definition nl :: char where
  "nl = CHR 0x0A"

definition slash :: char where
  "slash = CHR ''/''"

text \<open>\<^verbatim>\<open>String.prototype.trim\<close>: the white space of ECMAScript that fits in one code unit
  below 256 (TAB, LF, VT, FF, CR, SP, NBSP).\<close>

definition is_js_space :: "char \<Rightarrow> bool" where
  "is_js_space c \<longleftrightarrow>
     c \<in> set [CHR 0x09, CHR 0x0A, CHR 0x0B, CHR 0x0C, CHR 0x0D, CHR 0x20, CHR 0xA0]"

definition js_trim :: "string \<Rightarrow> string" where
  "js_trim s = rev (dropWhile is_js_space (rev (dropWhile is_js_space s)))"

text \<open>\<^verbatim>\<open>s.split(c)\<close> for a one-character separator: always at least one piece.\<close>

fun split_char :: "char \<Rightarrow> string \<Rightarrow> string list" where
  "split_char c [] = [[]]"
| "split_char c (x # xs) =
     (if x = c then [] # split_char c xs
      else (case split_char c xs of
              [] \<Rightarrow> [[x]]
            | p # ps \<Rightarrow> (x # p) # ps))"

text \<open>\<^verbatim>\<open>s.split("\n\n")\<close>: the leftmost blank line cuts first, and the scan resumes after
  both newlines.\<close>

fun split_blank :: "string \<Rightarrow> string list" where
  "split_blank [] = [[]]"
| "split_blank [x] = [[x]]"
| "split_blank (x # y # xs) =
     (if x = nl \<and> y = nl then [] # split_blank xs
      else (case split_blank (y # xs) of
              [] \<Rightarrow> [[x]]
            | p # ps \<Rightarrow> (x # p) # ps))"

text \<open>\<^verbatim>\<open>pieces.join(sep)\<close>.\<close>

fun js_join :: "string \<Rightarrow> string list \<Rightarrow> string" where
  "js_join sep [] = []"
| "js_join sep [p] = p"
| "js_join sep (p # q # ps) = p @ sep @ js_join sep (q # ps)"

section \<open>The path module of Node (POSIX flavour)\<close>

text \<open>
  \<^verbatim>\<open>index.ts\<close> calls \<^verbatim>\<open>path.basename\<close>, \<^verbatim>\<open>path.dirname\<close>, \<^verbatim>\<open>path.join\<close> and
  \<^verbatim>\<open>path.resolve\<close>. They belong to the platform, not to the repository; the definitions
  below follow \<^verbatim>\<open>lib/path.js\<close> of Node for POSIX, with the character loop of
  \<^verbatim>\<open>normalizeString\<close> written as a pass over the segments between slashes.
\<close>

text \<open>The stack \<open>st\<close> holds the segments kept so far, last one first. The flag is
  \<^verbatim>\<open>allowAboveRoot\<close>.\<close>

fun normalize_segs :: "bool \<Rightarrow> string list \<Rightarrow> string list \<Rightarrow> string list" where
  "normalize_segs up st [] = rev st"
| "normalize_segs up st (s # ss) =
     (if s = [] \<or> s = ''.'' then normalize_segs up st ss
      else if s = ''..'' then
        (case st of
           [] \<Rightarrow> normalize_segs up (if up then [''..''] else []) ss
         | x # xs \<Rightarrow>
             if x \<noteq> ''..'' then normalize_segs up xs ss
             else normalize_segs up (if up then ''..'' # st else st) ss)
      else normalize_segs up (s # st) ss)"

definition normalizeString :: "string \<Rightarrow> bool \<Rightarrow> string" where
  "normalizeString p up = js_join [slash] (normalize_segs up [] (split_char slash p))"

definition path_normalize :: "string \<Rightarrow> string" where
  "path_normalize p =
     (if p = [] then ''.''
      else
        let isAbsolute = (hd p = slash);
            trailingSeparator = (last p = slash);
            q = normalizeString p (\<not> isAbsolute)
        in if q = [] then (if isAbsolute then ''/'' else if trailingSeparator then ''./'' else ''.'')
           else (if isAbsolute then ''/'' else []) @ q @ (if trailingSeparator then ''/'' else []))"

definition path_join :: "string list \<Rightarrow> string" where
  "path_join args =
     (case filter (\<lambda>a. a \<noteq> []) args of
        [] \<Rightarrow> ''.''
      | ps \<Rightarrow> path_normalize (js_join [slash] ps))"

text \<open>\<^verbatim>\<open>path.resolve\<close> walks its arguments from the right, then the working directory of
  the process, until it has met an absolute one. The list given to \<open>resolve_walk\<close> is the
  arguments reversed, followed by the working directory.\<close>

fun resolve_walk :: "string list \<Rightarrow> string \<Rightarrow> string \<times> bool" where
  "resolve_walk [] acc = (acc, False)"
| "resolve_walk (p # ps) acc =
     (if p = [] then resolve_walk ps acc
      else if hd p = slash then (p @ [slash] @ acc, True)
      else resolve_walk ps (p @ [slash] @ acc))"

definition path_resolve :: "string \<Rightarrow> string list \<Rightarrow> string" where
  "path_resolve cwd args =
     (case resolve_walk (rev args @ [cwd]) [] of
        (resolvedPath, resolvedAbsolute) \<Rightarrow>
          let q = normalizeString resolvedPath (\<not> resolvedAbsolute)
          in if resolvedAbsolute then slash # q
             else if q \<noteq> [] then q else ''.'')"

definition path_basename :: "string \<Rightarrow> string" where
  "path_basename p =
     rev (takeWhile (\<lambda>c. c \<noteq> slash) (dropWhile (\<lambda>c. c = slash) (rev p)))"

text \<open>\<^verbatim>\<open>path.dirname\<close> scans from the end down to index 1: trailing slashes, then the last
  segment, then the slash in front of it, whose index is \<^verbatim>\<open>end\<close>.\<close>

definition path_dirname :: "string \<Rightarrow> string" where
  "path_dirname p =
     (case p of
        [] \<Rightarrow> ''.''
      | c # cs \<Rightarrow>
          (case dropWhile (\<lambda>x. x \<noteq> slash) (dropWhile (\<lambda>x. x = slash) (rev cs)) of
             [] \<Rightarrow> (if c = slash then ''/'' else ''.'')
           | _ # front \<Rightarrow>
               if c = slash \<and> front = [] then ''//'' else c # rev front))"

section \<open>Identity of a workspace\<close>

definition ACTUAL_MAIN_BRANCH :: string where
  "ACTUAL_MAIN_BRANCH = ''main''"

definition getWorktreesDir :: "string \<Rightarrow> string" where
  "getWorktreesDir repoPath =
     (let dirName = path_basename repoPath;
          parentDir = path_dirname repoPath
      in path_join [parentDir, dirName @ ''-worktrees''])"

text \<open>The regular expression \<^verbatim>\<open>/^[a-zA-Z0-9-_]+$/\<close>: one character or rest, each a letter,
  a digit, a dash or an underscore.\<close>

definition allowed_chars :: "char list" where
  "allowed_chars =
     ''abcdefghijklmnopqrstuvwxyzABCDEFGHIJKLMNOPQRSTUVWXYZ0123456789-_''"

definition isValidWorktreeName :: "string \<Rightarrow> bool" where
  "isValidWorktreeName name \<longleftrightarrow> name \<noteq> [] \<and> list_all (\<lambda>c. c \<in> set allowed_chars) name"

text \<open>The first two statements of \<^verbatim>\<open>createWorktree\<close>.\<close>

definition targetWorktreePath :: "string \<Rightarrow> string \<Rightarrow> string" where
  "targetWorktreePath repoPath name = path_join [getWorktreesDir repoPath, name]"

definition branchForWorktree :: "string \<Rightarrow> string" where
  "branchForWorktree name = name @ ''-branch''"

section \<open>The world outside the process\<close>

text \<open>
  Everything the server does to the outside is an event. The trace of events is threaded
  through every function: a function takes the trace so far and returns the longer one.
  The diagnostics written with \<^verbatim>\<open>console.error\<close> and \<^verbatim>\<open>console.warn\<close> are events as
  well (the informational \<^verbatim>\<open>console.log\<close> lines are left out).
\<close>

datatype diagnostic =
    GetCurrentBranchError
  | WorktreeListError string
  | PnpmInstallWarnings string
  | PnpmInstallError string
  | CreateWorktreeError
  | InvalidWorktreeParam string
  | MainPnpmStderr string
  | MainPnpmInstallError
  | PrepareWorktreeFailed string
  | FallbackError string
  | RequestError

datatype event =
    Exec string string
  | ExistsSync string
  | ReaddirSync string
  | MkdirSync string
  | CreateServer string string "string list"
  | ReadFile string
  | TransformIndexHtml string string string
  | ConsoleError diagnostic
  | ConsoleWarn diagnostic

text \<open>\<^verbatim>\<open>execCommand\<close> rejects with the error and the standard error output, or resolves
  with both outputs.\<close>

datatype exec_result = Rejected string | Resolved string string

text \<open>
  The world answers every call. Its answer may depend on everything the process has done
  so far (the trace), so that a command issued twice may be answered differently; a
  throwing call is the left summand, with the message of the exception.
\<close>

record world =
  cwd :: string
  exec_answer :: "event list \<Rightarrow> string \<Rightarrow> string \<Rightarrow> exec_result"
  exists_answer :: "event list \<Rightarrow> string \<Rightarrow> bool"
  readdir_answer :: "event list \<Rightarrow> string \<Rightarrow> string + string list"
  mkdir_answer :: "event list \<Rightarrow> string \<Rightarrow> string + unit"
  create_server_answer :: "event list \<Rightarrow> string \<Rightarrow> string \<Rightarrow> string + unit"
  read_file_answer :: "event list \<Rightarrow> string \<Rightarrow> string + string"
  transform_answer :: "event list \<Rightarrow> string \<Rightarrow> string \<Rightarrow> string \<Rightarrow> string + string"

definition execCommand ::
  "world \<Rightarrow> string \<Rightarrow> string \<Rightarrow> event list \<Rightarrow> exec_result \<times> event list" where
  "execCommand w command dir t = (exec_answer w t command dir, t @ [Exec command dir])"

definition existsSync :: "world \<Rightarrow> string \<Rightarrow> event list \<Rightarrow> bool \<times> event list" where
  "existsSync w p t = (exists_answer w t p, t @ [ExistsSync p])"

definition readdirSync ::
  "world \<Rightarrow> string \<Rightarrow> event list \<Rightarrow> (string + string list) \<times> event list" where
  "readdirSync w p t = (readdir_answer w t p, t @ [ReaddirSync p])"

definition mkdirSync :: "world \<Rightarrow> string \<Rightarrow> event list \<Rightarrow> (string + unit) \<times> event list" where
  "mkdirSync w p t = (mkdir_answer w t p, t @ [MkdirSync p])"

text \<open>The commands, as the source spells them.\<close>

definition cmd_is_inside_work_tree :: string where
  "cmd_is_inside_work_tree = ''git rev-parse --is-inside-work-tree''"

definition cmd_abbrev_ref_head :: string where
  "cmd_abbrev_ref_head = ''git rev-parse --abbrev-ref HEAD''"

definition cmd_worktree_list :: string where
  "cmd_worktree_list = ''git worktree list --porcelain''"

definition cmd_verify_base :: string where
  "cmd_verify_base = ''git rev-parse --verify '' @ ACTUAL_MAIN_BRANCH @ ''^{commit}''"

definition cmd_show_ref :: "string \<Rightarrow> string" where
  "cmd_show_ref branch = ''git show-ref --verify --quiet refs/heads/'' @ branch"

definition cmd_add_new_branch :: "string \<Rightarrow> string \<Rightarrow> string" where
  "cmd_add_new_branch branch target =
     ''git worktree add -b '' @ branch @ '' '' @ target @ '' '' @ ACTUAL_MAIN_BRANCH"

definition cmd_add_existing_branch :: "string \<Rightarrow> string \<Rightarrow> string" where
  "cmd_add_existing_branch branch target = ''git worktree add '' @ target @ '' '' @ branch"

definition cmd_pnpm_install :: string where
  "cmd_pnpm_install = ''pnpm install''"

text \<open>A checkout-creation command is an invocation of \<^verbatim>\<open>git worktree add\<close>; the mutating
  operations are those, the dependency installation, and the creation of a directory.\<close>

fun is_creation :: "event \<Rightarrow> bool" where
  "is_creation (Exec command dir) = prefix ''git worktree add '' command"
| "is_creation _ = False"

fun is_mutation :: "event \<Rightarrow> bool" where
  "is_mutation (Exec command dir) =
     (prefix ''git worktree add '' command \<or> command = cmd_pnpm_install)"
| "is_mutation (MkdirSync p) = True"
| "is_mutation _ = False"

text \<open>External invocations: everything but the diagnostics.\<close>

fun is_external :: "event \<Rightarrow> bool" where
  "is_external (ConsoleError d) = False"
| "is_external (ConsoleWarn d) = False"
| "is_external _ = True"

section \<open>The checkout inspector\<close>

definition getCurrentBranch ::
  "world \<Rightarrow> string \<Rightarrow> event list \<Rightarrow> string option \<times> event list" where
  "getCurrentBranch w repoPath t =
     (case execCommand w cmd_is_inside_work_tree repoPath t of
        (Rejected e, t1) \<Rightarrow> (None, t1 @ [ConsoleError GetCurrentBranchError])
      | (Resolved isGitRepoStdout e, t1) \<Rightarrow>
          if js_trim isGitRepoStdout \<noteq> ''true'' then (None, t1)
          else
            (case execCommand w cmd_abbrev_ref_head repoPath t1 of
               (Rejected e, t2) \<Rightarrow> (None, t2 @ [ConsoleError GetCurrentBranchError])
             | (Resolved branchStdout e, t2) \<Rightarrow>
                 let branch = js_trim branchStdout
                 in (if branch = ''HEAD'' then None else Some branch, t2)))"

text \<open>The inner loop over the lines of one entry of the listing: the last
  \<^verbatim>\<open>worktree\<close> line and the last \<^verbatim>\<open>branch refs/heads/\<close> line win.\<close>

fun scan_lines :: "string list \<Rightarrow> string \<times> string \<Rightarrow> string \<times> string" where
  "scan_lines [] (currentPath, currentBranch) = (currentPath, currentBranch)"
| "scan_lines (line # rest) (currentPath, currentBranch) =
     (if prefix ''worktree '' line
        then scan_lines rest (drop (length ''worktree '') line, currentBranch)
      else if prefix ''branch refs/heads/'' line
        then scan_lines rest (currentPath, drop (length ''branch refs/heads/'') line)
      else scan_lines rest (currentPath, currentBranch))"

definition parse_entry :: "string \<Rightarrow> string \<times> string" where
  "parse_entry entry = scan_lines (split_char nl entry) ([], [])"

text \<open>The loop of \<^verbatim>\<open>getWorktreePathForBranch\<close> over the entries.\<close>

fun find_branch_entry :: "string \<Rightarrow> string \<Rightarrow> string list \<Rightarrow> string option" where
  "find_branch_entry wd branchName [] = None"
| "find_branch_entry wd branchName (entry # rest) =
     (if js_trim entry = [] then find_branch_entry wd branchName rest
      else
        (case parse_entry entry of
           (currentPath, currentBranch) \<Rightarrow>
             if currentPath \<noteq> [] \<and> currentBranch = branchName
             then Some (path_resolve wd [currentPath])
             else find_branch_entry wd branchName rest))"

text \<open>
  In the source the scan of the listing sits inside a \<^verbatim>\<open>try\<close> whose last statement is
  \<^verbatim>\<open>return null\<close>: once the listing command has resolved, the function returns from there,
  match or no match. Only a rejected listing command reaches the statements after the
  \<^verbatim>\<open>catch\<close>, which ask for the current branch of the repository path.
\<close>

definition getWorktreePathForBranch ::
  "world \<Rightarrow> string \<Rightarrow> string \<Rightarrow> event list \<Rightarrow> string option \<times> event list" where
  "getWorktreePathForBranch w branchName repoPath t =
     (case execCommand w cmd_worktree_list repoPath t of
        (Resolved out e, t1) \<Rightarrow>
          (find_branch_entry (cwd w) branchName (split_blank out), t1)
      | (Rejected e, t1) \<Rightarrow>
          (case getCurrentBranch w repoPath (t1 @ [ConsoleError (WorktreeListError branchName)]) of
             (currentBranchOfCwd, t2) \<Rightarrow>
               (if currentBranchOfCwd = Some branchName
                then Some (path_resolve (cwd w) [repoPath]) else None, t2)))"

section \<open>The workspace provisioner\<close>

text \<open>The messages of the result of \<^verbatim>\<open>createWorktree\<close>, one constructor for each message
  template of the source, under the name the specification gives to the reason.\<close>

datatype message =
    AlreadyExists
  | BranchCheckedOutElsewhere string
  | PathOccupiedByOtherBranch string
  | NonEmptyDirectory
  | InvalidBaseBranch string
  | CreatedWorktree string string
  | CaughtError string

record result =
  success :: bool
  message :: message

text \<open>The second loop over the listing, in \<^verbatim>\<open>createWorktree\<close>: the first entry whose path
  resolves to the target and whose branch is another one ends the attempt.\<close>

fun find_path_conflict :: "string \<Rightarrow> string \<Rightarrow> string \<Rightarrow> string list \<Rightarrow> string option" where
  "find_path_conflict wd target branch [] = None"
| "find_path_conflict wd target branch (entry # rest) =
     (if js_trim entry = [] then find_path_conflict wd target branch rest
      else
        (case parse_entry entry of
           (currentEntryPath, currentEntryBranch) \<Rightarrow>
             if path_resolve wd [currentEntryPath] = path_resolve wd [target]
                \<and> currentEntryBranch \<noteq> branch
             then Some currentEntryBranch
             else find_path_conflict wd target branch rest))"

text \<open>\<^verbatim>\<open>error.stderr || error.message || "Unknown error"\<close> in the outer handler.\<close>

definition caught :: "string \<Rightarrow> event list \<Rightarrow> result \<times> event list" where
  "caught detail t =
     (\<lparr>success = False,
       message = CaughtError (if detail \<noteq> [] then detail else ''Unknown error'')\<rparr>,
      t @ [ConsoleError CreateWorktreeError])"

text \<open>The last part of \<^verbatim>\<open>createWorktree\<close>, from the test whether the branch exists.\<close>

definition add_and_install ::
  "world \<Rightarrow> string \<Rightarrow> string \<Rightarrow> string \<Rightarrow> event list \<Rightarrow> result \<times> event list" where
  "add_and_install w branch target repoPath t =
     (case execCommand w (cmd_show_ref branch) repoPath t of
        (shown, t1) \<Rightarrow>
          let branchDidExist = (case shown of Resolved out e \<Rightarrow> True | Rejected e \<Rightarrow> False);
              addCmd = (if \<not> branchDidExist then cmd_add_new_branch branch target
                        else cmd_add_existing_branch branch target)
          in
            (case execCommand w addCmd repoPath t1 of
               (Rejected e, t2) \<Rightarrow> caught e t2
             | (Resolved addOut addErr, t2) \<Rightarrow>
                 (case execCommand w cmd_pnpm_install target t2 of
                    (Resolved pnpmOutput pnpmError, t3) \<Rightarrow>
                      (\<lparr>success = True, message = CreatedWorktree addOut addErr\<rparr>,
                       if pnpmError \<noteq> [] then t3 @ [ConsoleWarn (PnpmInstallWarnings pnpmError)]
                       else t3)
                  | (Rejected e, t3) \<Rightarrow>
                      (\<lparr>success = True, message = CreatedWorktree addOut addErr\<rparr>,
                       t3 @ [ConsoleError
                               (PnpmInstallError (if e \<noteq> [] then e else ''Unknown error''))]))))"

text \<open>The part from the creation of the container directory to the verification of the
  base branch.\<close>

definition verify_base_and_add ::
  "world \<Rightarrow> string \<Rightarrow> string \<Rightarrow> string \<Rightarrow> event list \<Rightarrow> result \<times> event list" where
  "verify_base_and_add w branch target repoPath t =
     (let worktreesDir = getWorktreesDir repoPath
      in
        (case existsSync w worktreesDir t of
           (dirExists, t1) \<Rightarrow>
             (case (if \<not> dirExists then mkdirSync w worktreesDir t1 else (Inr (), t1)) of
                (Inl e, t2) \<Rightarrow> caught e t2
              | (Inr u, t2) \<Rightarrow>
                  (case execCommand w cmd_verify_base repoPath t2 of
                     (Rejected e, t3) \<Rightarrow>
                       (\<lparr>success = False,
                         message = InvalidBaseBranch (if e \<noteq> [] then e else ''undefined'')\<rparr>,
                        t3)
                   | (Resolved out e, t3) \<Rightarrow> add_and_install w branch target repoPath t3))))"

text \<open>The test of the target directory.\<close>

definition check_directory ::
  "world \<Rightarrow> string \<Rightarrow> string \<Rightarrow> string \<Rightarrow> event list \<Rightarrow> result \<times> event list" where
  "check_directory w branch target repoPath t =
     (case existsSync w target t of
        (targetExists, t1) \<Rightarrow>
          (case (if targetExists then readdirSync w target t1 else (Inr [], t1)) of
             (Inl e, t2) \<Rightarrow> caught e t2
           | (Inr filesInDir, t2) \<Rightarrow>
               if targetExists \<and> length filesInDir > 0
               then (\<lparr>success = False, message = NonEmptyDirectory\<rparr>, t2)
               else verify_base_and_add w branch target repoPath t2))"

definition createWorktree ::
  "world \<Rightarrow> string \<Rightarrow> string \<Rightarrow> event list \<Rightarrow> result \<times> event list" where
  "createWorktree w name repoPath t =
     (let target = targetWorktreePath repoPath name;
          branch = branchForWorktree name
      in
        (case getWorktreePathForBranch w branch repoPath t of
           (existingPathForBranch, t1) \<Rightarrow>
             (case (case existingPathForBranch of
                      None \<Rightarrow> None
                    | Some p \<Rightarrow> if p \<noteq> [] then Some p else None) of
                Some p \<Rightarrow>
                  if path_resolve (cwd w) [p] = path_resolve (cwd w) [target]
                  then (\<lparr>success = True, message = AlreadyExists\<rparr>, t1)
                  else (\<lparr>success = False, message = BranchCheckedOutElsewhere p\<rparr>, t1)
              | None \<Rightarrow>
                  (case execCommand w cmd_worktree_list repoPath t1 of
                     (Rejected e, t2) \<Rightarrow> caught e t2
                   | (Resolved wtListStdOut e, t2) \<Rightarrow>
                       (case find_path_conflict (cwd w) target branch
                               (split_blank wtListStdOut) of
                          Some other \<Rightarrow>
                            (\<lparr>success = False, message = PathOccupiedByOtherBranch other\<rparr>, t2)
                        | None \<Rightarrow> check_directory w branch target repoPath t2)))))"

section \<open>The registry and the request handler\<close>

text \<open>
  \<^verbatim>\<open>viteServers\<close> is a plain object used as a dictionary from the workspace name to the
  development server built for it. A server is known here by the configuration it was
  built from.
\<close>

record handle =
  root :: string
  base :: string
  allow :: "string list"

type_synonym registry = "string \<rightharpoonup> handle"

text \<open>Reading \<^verbatim>\<open>viteServers[name]\<close> on a plain object also finds what the object inherits
  from \<^verbatim>\<open>Object.prototype\<close>; all of it is truthy and none of it is a server.\<close>

definition object_prototype_keys :: "string list" where
  "object_prototype_keys =
     [''constructor'', ''__defineGetter__'', ''__defineSetter__'', ''hasOwnProperty'',
      ''__lookupGetter__'', ''__lookupSetter__'', ''isPrototypeOf'', ''propertyIsEnumerable'',
      ''toString'', ''valueOf'', ''__proto__'', ''toLocaleString'']"

datatype lookup = Own handle | Inherited | Absent

definition viteServers_get :: "registry \<Rightarrow> string \<Rightarrow> lookup" where
  "viteServers_get reg name =
     (case reg name of
        Some h \<Rightarrow> Own h
      | None \<Rightarrow> if name \<in> set object_prototype_keys then Inherited else Absent)"

record request =
  worktree_param :: string
  req_path :: string
  originalUrl :: string

datatype response =
    CachedMiddlewares handle
  | ThrewTypeError
  | NextHandler
  | Status400
  | Status500Worktree message
  | Status500
  | Status200 string
  | NextWithError

text \<open>
  The handler is an \<^verbatim>\<open>async\<close> function: it runs without interruption up to an
  \<^verbatim>\<open>await\<close>, where other requests may run. Its control points are the arrival of the
  request and the four things it waits for: the dependency installation of \<^verbatim>\<open>main\<close>,
  \<^verbatim>\<open>createWorktree\<close>, \<^verbatim>\<open>vite.createServer\<close>, and the reading and transformation of
  \<^verbatim>\<open>index.html\<close>. The registry is read at the arrival and again after the first wait; it
  is written only when \<^verbatim>\<open>vite.createServer\<close> has resolved.
\<close>

datatype control =
    Arrived
  | AwaitInstall
  | AwaitCreateWorktree
  | AwaitCreateServer string string
  | AwaitIndex string
  | Done response

definition actualReqPathForVite :: "request \<Rightarrow> string" where
  "actualReqPathForVite req =
     (let p = req_path req;
          p1 = (if \<not> prefix ''/'' p then ''/'' @ p else p)
      in if p1 = ''//'' then ''/'' else p1)"

text \<open>\<^verbatim>\<open>if (!viteServers[worktree])\<close>, after the workspace has been prepared.\<close>

definition ensure_server :: "registry \<Rightarrow> string \<Rightarrow> string \<Rightarrow> string \<Rightarrow> control" where
  "ensure_server reg name rootPathForVite effectiveViteBasePath =
     (case viteServers_get reg name of
        Absent \<Rightarrow> AwaitCreateServer rootPathForVite effectiveViteBasePath
      | _ \<Rightarrow> AwaitIndex rootPathForVite)"

fun task_step ::
  "world \<Rightarrow> string \<Rightarrow> request \<Rightarrow> registry \<times> control \<times> event list
     \<Rightarrow> registry \<times> control \<times> event list" where
  "task_step w repoPath req (reg, Arrived, t) =
     (let worktreeFromParam = worktree_param req
      in case viteServers_get reg worktreeFromParam of
           Own server \<Rightarrow> (reg, Done (CachedMiddlewares server), t)
         | Inherited \<Rightarrow> (reg, Done ThrewTypeError, t)
         | Absent \<Rightarrow>
             if worktreeFromParam \<noteq> [] \<and> isValidWorktreeName worktreeFromParam
             then
               (if worktreeFromParam = [] then (reg, Done Status400, t)
                else if worktreeFromParam = ''main'' then (reg, AwaitInstall, t)
                else (reg, AwaitCreateWorktree, t))
             else (reg, Done NextHandler, t @ [ConsoleWarn (InvalidWorktreeParam worktreeFromParam)]))"
| "task_step w repoPath req (reg, AwaitInstall, t) =
     (case execCommand w cmd_pnpm_install repoPath t of
        (Resolved pnpmStdout pnpmStderr, t1) \<Rightarrow>
          (reg, ensure_server reg (worktree_param req) repoPath ''/main/'',
           if pnpmStderr \<noteq> [] then t1 @ [ConsoleWarn (MainPnpmStderr pnpmStderr)] else t1)
      | (Rejected e, t1) \<Rightarrow>
          (reg, ensure_server reg (worktree_param req) repoPath ''/main/'',
           t1 @ [ConsoleError MainPnpmInstallError]))"
| "task_step w repoPath req (reg, AwaitCreateWorktree, t) =
     (let worktree = worktree_param req
      in case createWorktree w worktree repoPath t of
           (createWorktreeResult, t1) \<Rightarrow>
             if \<not> success createWorktreeResult
             then (reg, Done (Status500Worktree (message createWorktreeResult)),
                   t1 @ [ConsoleError (PrepareWorktreeFailed worktree)])
             else (reg,
                   ensure_server reg worktree
                     (path_join [getWorktreesDir repoPath, worktree])
                     (''/'' @ worktree @ ''/''),
                   t1))"
| "task_step w repoPath req (reg, AwaitCreateServer rootPathForVite effectiveViteBasePath, t) =
     (let fsAllow = [repoPath, getWorktreesDir repoPath];
          t1 = t @ [CreateServer rootPathForVite effectiveViteBasePath fsAllow]
      in case create_server_answer w t rootPathForVite effectiveViteBasePath of
           Inl e \<Rightarrow> (reg, Done Status500, t1 @ [ConsoleError RequestError])
         | Inr u \<Rightarrow>
             (reg(worktree_param req \<mapsto>
                    \<lparr>root = rootPathForVite, base = effectiveViteBasePath, allow = fsAllow\<rparr>),
              AwaitIndex rootPathForVite, t1))"
| "task_step w repoPath req (reg, AwaitIndex rootPathForVite, t) =
     (let indexPath = path_resolve (cwd w) [rootPathForVite, ''index.html''];
          t1 = t @ [ReadFile indexPath]
      in case read_file_answer w t indexPath of
           Inl e \<Rightarrow> (reg, Done NextWithError,
                     t1 @ [ConsoleError (FallbackError (worktree_param req))])
         | Inr htmlContent \<Rightarrow>
             (let t2 = t1 @ [TransformIndexHtml (actualReqPathForVite req) htmlContent
                               (originalUrl req)]
              in case transform_answer w t1 (actualReqPathForVite req) htmlContent
                        (originalUrl req) of
                   Inl e \<Rightarrow> (reg, Done NextWithError,
                             t2 @ [ConsoleError (FallbackError (worktree_param req))])
                 | Inr template \<Rightarrow> (reg, Done (Status200 template), t2)))"
| "task_step w repoPath req (reg, Done r, t) = (reg, Done r, t)"

text \<open>One request handled with no other request in flight: arrival, then at most three
  waits.\<close>

definition handler ::
  "world \<Rightarrow> string \<Rightarrow> request \<Rightarrow> registry \<Rightarrow> registry \<times> control \<times> event list" where
  "handler w repoPath req reg =
     task_step w repoPath req (task_step w repoPath req (task_step w repoPath req
       (task_step w repoPath req (reg, Arrived, []))))"

subsection \<open>Requests in flight together\<close>

text \<open>
  Node runs one handler at a time and switches between them only where a handler waits:
  at an \<^verbatim>\<open>await\<close> of \<^verbatim>\<open>execCommand\<close> (inside \<^verbatim>\<open>createWorktree\<close>,
  \<^verbatim>\<open>getWorktreePathForBranch\<close> and \<^verbatim>\<open>getCurrentBranch\<close>, and for the installation of
  \<^verbatim>\<open>main\<close>), of \<^verbatim>\<open>vite.createServer\<close>, of \<^verbatim>\<open>fs.promises.readFile\<close> and of
  \<^verbatim>\<open>server.transformIndexHtml\<close>. The calls of \<^verbatim>\<open>fs.existsSync\<close>, \<^verbatim>\<open>fs.readdirSync\<close>
  and \<^verbatim>\<open>fs.mkdirSync\<close> and the writing of diagnostics do not wait.

  A request in flight is therefore suspended either before its handler has started, or
  right after it has issued one of the calls it waits for, or it is finished. A move
  resumes it: the request receives the answer to the call it waited for and runs until
  it has issued the next such call, or to its end.
\<close>

datatype suspended =
    Queued
  | InCreateWorktree nat
  | OnInstall
  | OnCreateServer string string
  | OnReadFile string
  | OnTransform string
  | Finished response

fun is_exec :: "event \<Rightarrow> bool" where
  "is_exec (Exec command dir) = True"
| "is_exec _ = False"

text \<open>The events up to the next command, the command included.\<close>

fun next_chunk :: "event list \<Rightarrow> event list" where
  "next_chunk [] = []"
| "next_chunk (e # es) = (if is_exec e then [e] else e # next_chunk es)"

text \<open>After the workspace has been prepared: \<^verbatim>\<open>if (!viteServers[worktree])\<close> the server
  is asked for; otherwise the handler goes on to read \<^verbatim>\<open>index.html\<close>.\<close>

definition after_prepare ::
  "world \<Rightarrow> string \<Rightarrow> request \<Rightarrow> registry \<Rightarrow> string \<Rightarrow> string \<Rightarrow> event list
     \<Rightarrow> registry \<times> suspended \<times> event list" where
  "after_prepare w repoPath req reg rootPathForVite effectiveViteBasePath t =
     (case viteServers_get reg (worktree_param req) of
        Absent \<Rightarrow>
          (reg, OnCreateServer rootPathForVite effectiveViteBasePath,
           t @ [CreateServer rootPathForVite effectiveViteBasePath
                  [repoPath, getWorktreesDir repoPath]])
      | _ \<Rightarrow>
          (reg, OnReadFile rootPathForVite,
           t @ [ReadFile (path_resolve (cwd w) [rootPathForVite, ''index.html''])]))"

text \<open>
  A request inside \<^verbatim>\<open>createWorktree\<close>, which it entered when its trace had \<open>n\<close> events.
  \<^verbatim>\<open>createWorktree\<close> reads and writes nothing of the process but its own variables, and
  the answers it gets are those of the request's own world; so what it does between two
  suspensions is the next stretch of the events of \<^verbatim>\<open>createWorktree\<close> in that world, up
  to the next command. When no command is left, \<^verbatim>\<open>createWorktree\<close> returns and the
  handler goes on without waiting.
\<close>

definition resume_createWorktree ::
  "world \<Rightarrow> string \<Rightarrow> request \<Rightarrow> registry \<Rightarrow> nat \<Rightarrow> event list
     \<Rightarrow> registry \<times> suspended \<times> event list" where
  "resume_createWorktree w repoPath req reg n t =
     (let worktree = worktree_param req
      in case createWorktree w worktree repoPath (take n t) of
           (createWorktreeResult, full) \<Rightarrow>
             let chunk = next_chunk (drop (length t) full)
             in if chunk \<noteq> [] \<and> is_exec (last chunk)
                then (reg, InCreateWorktree n, t @ chunk)
                else if \<not> success createWorktreeResult
                then (reg, Finished (Status500Worktree (message createWorktreeResult)),
                      t @ chunk @ [ConsoleError (PrepareWorktreeFailed worktree)])
                else after_prepare w repoPath req reg
                       (path_join [getWorktreesDir repoPath, worktree])
                       (''/'' @ worktree @ ''/'') (t @ chunk))"

text \<open>The answer a resumed request receives is the answer of its world to the call it
  issued last, which is the last event of its trace.\<close>

fun move ::
  "world \<Rightarrow> string \<Rightarrow> request \<Rightarrow> registry \<times> suspended \<times> event list
     \<Rightarrow> registry \<times> suspended \<times> event list" where
  "move w repoPath req (reg, Queued, t) =
     (let worktreeFromParam = worktree_param req
      in case viteServers_get reg worktreeFromParam of
           Own server \<Rightarrow> (reg, Finished (CachedMiddlewares server), t)
         | Inherited \<Rightarrow> (reg, Finished ThrewTypeError, t)
         | Absent \<Rightarrow>
             if worktreeFromParam \<noteq> [] \<and> isValidWorktreeName worktreeFromParam
             then
               (if worktreeFromParam = [] then (reg, Finished Status400, t)
                else if worktreeFromParam = ''main''
                then (reg, OnInstall, t @ [Exec cmd_pnpm_install repoPath])
                else resume_createWorktree w repoPath req reg (length t) t)
             else (reg, Finished NextHandler,
                   t @ [ConsoleWarn (InvalidWorktreeParam worktreeFromParam)]))"
| "move w repoPath req (reg, InCreateWorktree n, t) =
     resume_createWorktree w repoPath req reg n t"
| "move w repoPath req (reg, OnInstall, t) =
     (case exec_answer w (butlast t) cmd_pnpm_install repoPath of
        Resolved pnpmStdout pnpmStderr \<Rightarrow>
          after_prepare w repoPath req reg repoPath ''/main/''
            (if pnpmStderr \<noteq> [] then t @ [ConsoleWarn (MainPnpmStderr pnpmStderr)] else t)
      | Rejected e \<Rightarrow>
          after_prepare w repoPath req reg repoPath ''/main/''
            (t @ [ConsoleError MainPnpmInstallError]))"
| "move w repoPath req (reg, OnCreateServer rootPathForVite effectiveViteBasePath, t) =
     (case create_server_answer w (butlast t) rootPathForVite effectiveViteBasePath of
        Inl e \<Rightarrow> (reg, Finished Status500, t @ [ConsoleError RequestError])
      | Inr u \<Rightarrow>
          (reg(worktree_param req \<mapsto>
                 \<lparr>root = rootPathForVite, base = effectiveViteBasePath,
                  allow = [repoPath, getWorktreesDir repoPath]\<rparr>),
           OnReadFile rootPathForVite,
           t @ [ReadFile (path_resolve (cwd w) [rootPathForVite, ''index.html''])]))"
| "move w repoPath req (reg, OnReadFile rootPathForVite, t) =
     (case read_file_answer w (butlast t)
             (path_resolve (cwd w) [rootPathForVite, ''index.html'']) of
        Inl e \<Rightarrow> (reg, Finished NextWithError,
                  t @ [ConsoleError (FallbackError (worktree_param req))])
      | Inr htmlContent \<Rightarrow>
          (reg, OnTransform htmlContent,
           t @ [TransformIndexHtml (actualReqPathForVite req) htmlContent (originalUrl req)]))"
| "move w repoPath req (reg, OnTransform htmlContent, t) =
     (case transform_answer w (butlast t) (actualReqPathForVite req) htmlContent
             (originalUrl req) of
        Inl e \<Rightarrow> (reg, Finished NextWithError,
                  t @ [ConsoleError (FallbackError (worktree_param req))])
      | Inr template \<Rightarrow> (reg, Finished (Status200 template), t))"
| "move w repoPath req (reg, Finished r, t) = (reg, Finished r, t)"

text \<open>
  A task is a request with the point where it is suspended and the events it has caused;
  the world of a task answers that task's calls, and its answers may depend on all the
  task has done so far, so that what the commands of another request did to the
  repository in between shows in them. The system is the shared registry, the tasks, and
  the trace of all events in the order they happened. A schedule names the task that
  moves next.
\<close>

record task =
  task_world :: world
  task_request :: request
  task_control :: suspended
  task_trace :: "event list"

record system =
  sys_registry :: registry
  sys_tasks :: "task list"
  sys_trace :: "event list"

definition advance :: "string \<Rightarrow> nat \<Rightarrow> system \<Rightarrow> system" where
  "advance repoPath i s =
     (if i < length (sys_tasks s) then
        (let tk = sys_tasks s ! i
         in case move (task_world tk) repoPath (task_request tk)
                   (sys_registry s, task_control tk, task_trace tk) of
              (reg, c, t) \<Rightarrow>
                \<lparr>sys_registry = reg,
                 sys_tasks = (sys_tasks s)[i := tk\<lparr>task_control := c, task_trace := t\<rparr>],
                 sys_trace = sys_trace s @ drop (length (task_trace tk)) t\<rparr>)
      else s)"

fun run :: "string \<Rightarrow> nat list \<Rightarrow> system \<Rightarrow> system" where
  "run repoPath [] s = s"
| "run repoPath (i # schedule) s = run repoPath schedule (advance repoPath i s)"

definition new_task :: "world \<Rightarrow> request \<Rightarrow> task" where
  "new_task w req =
     \<lparr>task_world = w, task_request = req, task_control = Queued, task_trace = []\<rparr>"

text \<open>What holds of the registry at every moment: an entry is under a valid name, and is
  the server built for that name.\<close>

definition handle_for :: "string \<Rightarrow> string \<Rightarrow> handle" where
  "handle_for repoPath name =
     \<lparr>root = (if name = ''main'' then repoPath else targetWorktreePath repoPath name),
      base = ''/'' @ name @ ''/'',
      allow = [repoPath, getWorktreesDir repoPath]\<rparr>"

definition registry_ok :: "string \<Rightarrow> registry \<Rightarrow> bool" where
  "registry_ok repoPath reg \<longleftrightarrow>
     (\<forall>name h. reg name = Some h \<longrightarrow> isValidWorktreeName name \<and> h = handle_for repoPath name)"

section \<open>Auxiliary definitions for the properties\<close>

text \<open>What holds of a request in flight: it waits for a checkout or for a server only
  under a valid name, and the server it waits for is the one built for that name.\<close>

fun control_ok :: "string \<Rightarrow> request \<Rightarrow> control \<Rightarrow> bool" where
  "control_ok repoPath req AwaitInstall \<longleftrightarrow> worktree_param req = ''main''"
| "control_ok repoPath req AwaitCreateWorktree \<longleftrightarrow>
     isValidWorktreeName (worktree_param req) \<and> worktree_param req \<noteq> ''main''"
| "control_ok repoPath req (AwaitCreateServer r b) \<longleftrightarrow>
     isValidWorktreeName (worktree_param req)
     \<and> \<lparr>root = r, base = b, allow = [repoPath, getWorktreesDir repoPath]\<rparr>
         = handle_for repoPath (worktree_param req)"
| "control_ok repoPath req c \<longleftrightarrow> True"

text \<open>The same for a suspended request.\<close>

fun suspended_ok :: "string \<Rightarrow> request \<Rightarrow> suspended \<Rightarrow> bool" where
  "suspended_ok repoPath req OnInstall \<longleftrightarrow> worktree_param req = ''main''"
| "suspended_ok repoPath req (InCreateWorktree n) \<longleftrightarrow>
     isValidWorktreeName (worktree_param req) \<and> worktree_param req \<noteq> ''main''"
| "suspended_ok repoPath req (OnCreateServer r b) \<longleftrightarrow>
     isValidWorktreeName (worktree_param req)
     \<and> \<lparr>root = r, base = b, allow = [repoPath, getWorktreesDir repoPath]\<rparr>
         = handle_for repoPath (worktree_param req)"
| "suspended_ok repoPath req c \<longleftrightarrow> True"

definition system_ok :: "string \<Rightarrow> system \<Rightarrow> bool" where
  "system_ok repoPath s \<longleftrightarrow>
     registry_ok repoPath (sys_registry s)
     \<and> list_all (\<lambda>tk. suspended_ok repoPath (task_request tk) (task_control tk)) (sys_tasks s)"

text \<open>What \<^verbatim>\<open>path.join(d, name)\<close> puts in front of a name that is a single plain
  segment.\<close>

definition join_front :: "string \<Rightarrow> string" where
  "join_front d =
     (if d = [] then []
      else (if hd d = slash then ''/'' else []) @
           (let segs = normalize_segs (hd d \<noteq> slash) [] (split_char slash d)
            in if segs = [] then [] else js_join [slash] segs @ [slash]))"

text \<open>The commands of a trace, each with the answer the world gave to it. The second
  argument is the trace before the events still to be read.\<close>

fun exec_log :: "world \<Rightarrow> event list \<Rightarrow> event list \<Rightarrow> (string \<times> string \<times> exec_result) list" where
  "exec_log w pre [] = []"
| "exec_log w pre (Exec command dir # es) =
     (command, dir, exec_answer w pre command dir) # exec_log w (pre @ [Exec command dir]) es"
| "exec_log w pre (e # es) = exec_log w (pre @ [e]) es"

text \<open>
  Example worlds. The process runs in \<^verbatim>\<open>/home/u/repo\<close>; a command is answered from a
  table (a command that is not in the table resolves with empty output), the directories
  that exist are listed with their entries, and the development server and the files
  behave.
\<close>

definition example_world :: "(string \<times> exec_result) list \<Rightarrow> (string \<times> string list) list \<Rightarrow> world" where
  "example_world answers dirs =
     \<lparr>cwd = ''/home/u/repo'',
      exec_answer = (\<lambda>t command dir.
         case map_of answers command of Some a \<Rightarrow> a | None \<Rightarrow> Resolved [] []),
      exists_answer = (\<lambda>t p. map_of dirs p \<noteq> None),
      readdir_answer = (\<lambda>t p.
         case map_of dirs p of Some entries \<Rightarrow> Inr entries | None \<Rightarrow> Inl ''ENOENT''),
      mkdir_answer = (\<lambda>t p. Inr ()),
      create_server_answer = (\<lambda>t r b. Inr ()),
      read_file_answer = (\<lambda>t p. Inr ''<html></html>''),
      transform_answer = (\<lambda>t p html url. Inr html)\<rparr>"

definition repo :: string where
  "repo = ''/home/u/repo''"

text \<open>A listing with the primary working copy on \<^verbatim>\<open>main\<close> and nothing else.\<close>

definition listing_primary :: string where
  "listing_primary =
     ''worktree /home/u/repo'' @ [nl] @ ''HEAD 1f2e3d'' @ [nl] @ ''branch refs/heads/main'' @ [nl, nl]"

text \<open>A listing in which \<^verbatim>\<open>feature1-branch\<close> is checked out at \<^verbatim>\<open>/X\<close>.\<close>

definition listing_elsewhere :: string where
  "listing_elsewhere =
     listing_primary @
     ''worktree /X'' @ [nl] @ ''HEAD 4a5b6c'' @ [nl] @ ''branch refs/heads/feature1-branch'' @ [nl, nl]"

definition world_elsewhere :: world where
  "world_elsewhere = example_world [(cmd_worktree_list, Resolved listing_elsewhere [])] []"

definition request_for :: "string \<Rightarrow> request" where
  "request_for name =
     \<lparr>worktree_param = name, req_path = ''/'', originalUrl = ''/'' @ name @ ''/''\<rparr>"

text \<open>A stretch of events without a creation command, in which the only mutation is the
  creation of the container directory.\<close>

definition calm :: "string \<Rightarrow> event list \<Rightarrow> bool" where
  "calm repoPath ev \<longleftrightarrow>
     (\<forall>e\<in>set ev. \<not> is_creation e \<and> (is_mutation e \<longrightarrow> e = MkdirSync (getWorktreesDir repoPath)))"

text \<open>A stretch of events without any mutation.\<close>

definition quiet :: "event list \<Rightarrow> bool" where
  "quiet ev \<longleftrightarrow> (\<forall>e\<in>set ev. \<not> is_mutation e)"

text \<open>An attempt that ends before the last stage, after the events \<open>ev\<close>.\<close>

definition stops_early :: "string \<Rightarrow> result \<Rightarrow> event list \<Rightarrow> bool" where
  "stops_early repoPath res ev \<longleftrightarrow>
     calm repoPath ev \<and>
     (case message res of
        AlreadyExists \<Rightarrow> success res \<and> quiet ev
      | BranchCheckedOutElsewhere p \<Rightarrow> \<not> success res \<and> quiet ev
      | PathOccupiedByOtherBranch b \<Rightarrow> \<not> success res \<and> quiet ev
      | NonEmptyDirectory \<Rightarrow> \<not> success res \<and> quiet ev
      | InvalidBaseBranch d \<Rightarrow> \<not> success res \<and> Exec cmd_verify_base repoPath \<in> set ev
      | CaughtError d \<Rightarrow> \<not> success res
      | CreatedWorktree out err \<Rightarrow> False)"

text \<open>The base branch does not resolve and the container directory does not exist yet.\<close>

definition world_no_base :: world where
  "world_no_base =
     example_world
       [(cmd_worktree_list, Resolved listing_primary []),
        (cmd_verify_base, Rejected ''fatal: Needed a single revision'')] []"

text \<open>The target directory of \<^verbatim>\<open>feature1\<close> exists and holds a file; nothing is checked out
  there.\<close>

definition world_occupied :: world where
  "world_occupied =
     example_world
       [(cmd_worktree_list, Resolved listing_primary [])]
       [(''/home/u/repo-worktrees'', [''feature1'']),
        (''/home/u/repo-worktrees/feature1'', [''notes.txt''])]"

text \<open>The target directory of \<^verbatim>\<open>feature1\<close> exists and is empty; the branch does not exist
  yet.\<close>

definition world_empty_dir :: world where
  "world_empty_dir =
     example_world
       [(cmd_worktree_list, Resolved listing_primary []),
        (cmd_show_ref ''feature1-branch'', Rejected [])]
       [(''/home/u/repo-worktrees'', [''feature1'']),
        (''/home/u/repo-worktrees/feature1'', [])]"

text \<open>Nothing exists yet, the creation succeeds, the dependency installation fails.\<close>

definition world_install_fails :: world where
  "world_install_fails =
     example_world
       [(cmd_worktree_list, Resolved listing_primary []),
        (cmd_show_ref ''feature1-branch'', Rejected []),
        (cmd_pnpm_install, Rejected ''ERR_PNPM_NO_PKG_MANIFEST'')] []"
















section \<open>Properties\<close>

subsection \<open>Paths\<close>

lemma split_char_not_Nil: "split_char c s \<noteq> []"
  by (induction s) (auto split: list.splits)

lemma split_char_no_sep: "c \<notin> set n \<Longrightarrow> split_char c n = [n]"
  by (induction n) auto

lemma split_char_snoc: "c \<notin> set n \<Longrightarrow> split_char c (p @ c # n) = split_char c p @ [n]"
proof (induction p)
  case Nil
  then show ?case by (simp add: split_char_no_sep)
next
  case (Cons x p)
  then show ?case
    using split_char_not_Nil [of c p] by (cases "split_char c p") auto
qed

lemma normalize_segs_append:
  "normalize_segs up st (xs @ ys) = normalize_segs up (rev (normalize_segs up st xs)) ys"
  by (induction xs arbitrary: st) (auto split: list.splits)

lemma normalize_segs_snoc:
  assumes "n \<noteq> []" "n \<noteq> ''.''" "n \<noteq> ''..''"
  shows "normalize_segs up st (xs @ [n]) = normalize_segs up st xs @ [n]"
  using assms by (simp add: normalize_segs_append)

lemma js_join_snoc:
  "js_join sep (xs @ [n]) = (if xs = [] then n else js_join sep xs @ sep @ n)"
  by (induction sep xs rule: js_join.induct) auto

text \<open>A valid name is one plain path segment.\<close>

lemma valid_name_facts:
  assumes "isValidWorktreeName n"
  shows "n \<noteq> []" "slash \<notin> set n" "n \<noteq> ''.''" "n \<noteq> ''..''"
proof -
  from assms show "n \<noteq> []" by (simp add: isValidWorktreeName_def)
  from assms have all: "\<forall>c\<in>set n. c \<in> set allowed_chars"
    by (simp add: isValidWorktreeName_def list_all_iff)
  have "slash \<notin> set allowed_chars" by (simp add: allowed_chars_def slash_def)
  with all show "slash \<notin> set n" by blast
  have "CHR ''.'' \<notin> set allowed_chars" by (simp add: allowed_chars_def)
  with all have "CHR ''.'' \<notin> set n" by blast
  then show "n \<noteq> ''.''" "n \<noteq> ''..''" by auto
qed

lemma path_join_valid_name:
  assumes "isValidWorktreeName n"
  shows "path_join [d, n] = join_front d @ n"
proof (cases "d = []")
  case True
  note v = valid_name_facts [OF assms]
  from v have "hd n \<noteq> slash" by (cases n) auto
  moreover from v have "last n \<noteq> slash" using last_in_set by metis
  ultimately show ?thesis using True v
    by (simp add: path_join_def path_normalize_def normalizeString_def split_char_no_sep
          join_front_def Let_def)
next
  case False
  note v = valid_name_facts [OF assms]
  from v have ln: "last n \<noteq> slash" using last_in_set by metis
  have j: "js_join [slash] [d, n] = d @ slash # n" by simp
  have hd: "hd (d @ slash # n) = hd d" using False by simp
  have last: "last (d @ slash # n) = last n" using v by simp
  have sp: "split_char slash (d @ slash # n) = split_char slash d @ [n]"
    using v by (simp add: split_char_snoc)
  show ?thesis using False v ln
    by (simp add: path_join_def path_normalize_def normalizeString_def j hd last sp
          normalize_segs_snoc js_join_snoc join_front_def Let_def del: js_join.simps)
qed

lemma path_resolve_not_Nil: "path_resolve wd args \<noteq> []"
  by (simp add: path_resolve_def Let_def split: prod.splits)

text \<open>
  C5. Two valid workspace names derive the same branch name exactly when they are the same
  name, and the same checkout path exactly when they are the same name: distinct names
  never share a branch or a path, and equal names always derive equal ones.
\<close>

theorem deriveIdentity_injective:
  assumes "isValidWorktreeName n1" and "isValidWorktreeName n2"
  shows "(branchForWorktree n1 = branchForWorktree n2 \<longleftrightarrow> n1 = n2)
       \<and> (targetWorktreePath repoPath n1 = targetWorktreePath repoPath n2 \<longleftrightarrow> n1 = n2)"
  using assms by (auto simp: branchForWorktree_def targetWorktreePath_def path_join_valid_name)

theorem deriveIdentity_injective_witness:
  "isValidWorktreeName ''feature1'' \<and> isValidWorktreeName ''feature2''
   \<and> branchForWorktree ''feature1'' \<noteq> branchForWorktree ''feature2''
   \<and> targetWorktreePath repo ''feature1'' \<noteq> targetWorktreePath repo ''feature2''"
proof -
  have v: "isValidWorktreeName ''feature1''" "isValidWorktreeName ''feature2''"
    by (simp_all add: isValidWorktreeName_def allowed_chars_def)
  from deriveIdentity_injective [OF v, of repo] v show ?thesis by simp
qed

subsection \<open>The checkout inspector\<close>

lemma find_branch_entry_Some: "find_branch_entry wd b es = Some p \<Longrightarrow> p \<noteq> []"
  by (induction es) (auto simp: path_resolve_not_Nil split: if_splits prod.splits)

lemma getCurrentBranch_trace:
  "getCurrentBranch w r t = (x, t') \<Longrightarrow>
     \<exists>ev. t' = t @ ev \<and> (\<forall>e\<in>set ev. \<not> is_mutation e \<and> \<not> is_creation e)"
  by (auto simp: getCurrentBranch_def execCommand_def cmd_is_inside_work_tree_def
        cmd_abbrev_ref_head_def cmd_pnpm_install_def Let_def
      split: exec_result.splits if_splits)

lemma getWorktreePathForBranch_trace:
  assumes "getWorktreePathForBranch w b r t = (x, t')"
  shows "\<exists>ev. t' = t @ Exec cmd_worktree_list r # ev
            \<and> (\<forall>e\<in>set ev. \<not> is_mutation e \<and> \<not> is_creation e)"
proof (cases "exec_answer w t cmd_worktree_list r")
  case (Resolved out e)
  with assms show ?thesis
    by (auto simp: getWorktreePathForBranch_def execCommand_def)
next
  case (Rejected e)
  let ?t1 = "t @ [Exec cmd_worktree_list r, ConsoleError (WorktreeListError b)]"
  obtain y t2 where g: "getCurrentBranch w r ?t1 = (y, t2)"
    by (cases "getCurrentBranch w r ?t1")
  from getCurrentBranch_trace [OF g] obtain ev where
    ev: "t2 = ?t1 @ ev" "\<forall>e\<in>set ev. \<not> is_mutation e \<and> \<not> is_creation e" by blast
  from assms Rejected g have "t' = t2"
    by (simp add: getWorktreePathForBranch_def execCommand_def)
  with ev show ?thesis by auto
qed

lemma getWorktreePathForBranch_Some:
  "getWorktreePathForBranch w b r t = (Some p, t') \<Longrightarrow> p \<noteq> []"
  by (auto simp: getWorktreePathForBranch_def execCommand_def path_resolve_not_Nil
      split: exec_result.splits prod.splits if_splits dest: find_branch_entry_Some)

lemma list_not_creation:
  "\<not> is_creation (Exec cmd_worktree_list r)" "\<not> is_mutation (Exec cmd_worktree_list r)"
  by (simp_all add: cmd_worktree_list_def cmd_pnpm_install_def)




subsection \<open>The provisioner\<close>

text \<open>
  C1. The provisioning attempt begins with the lookup of the checkout bound to the derived
  branch. When the lookup finds one, the attempt ends there: with success when the path
  found and the derived target path resolve to the same path, and otherwise with the
  failure that the branch is checked out elsewhere. The trace is that of the lookup; it
  starts with the listing command and holds no creation command and no other mutation.
\<close>

theorem branch_ownership_check:
  assumes "getWorktreePathForBranch w (branchForWorktree name) repoPath [] = (Some p, t1)"
  shows "createWorktree w name repoPath [] =
           (if path_resolve (cwd w) [p] = path_resolve (cwd w) [targetWorktreePath repoPath name]
            then \<lparr>success = True, message = AlreadyExists\<rparr>
            else \<lparr>success = False, message = BranchCheckedOutElsewhere p\<rparr>, t1)
         \<and> hd t1 = Exec cmd_worktree_list repoPath
         \<and> (\<forall>e\<in>set t1. \<not> is_creation e \<and> \<not> is_mutation e)"
proof -
  from getWorktreePathForBranch_Some [OF assms] have "p \<noteq> []" .
  with assms have "createWorktree w name repoPath [] =
           (if path_resolve (cwd w) [p] = path_resolve (cwd w) [targetWorktreePath repoPath name]
            then \<lparr>success = True, message = AlreadyExists\<rparr>
            else \<lparr>success = False, message = BranchCheckedOutElsewhere p\<rparr>, t1)"
    by (simp add: createWorktree_def Let_def)
  moreover from getWorktreePathForBranch_trace [OF assms] list_not_creation
  have "hd t1 = Exec cmd_worktree_list repoPath
        \<and> (\<forall>e\<in>set t1. \<not> is_creation e \<and> \<not> is_mutation e)"
    by auto
  ultimately show ?thesis by simp
qed

text \<open>The conflict of the specification: \<^verbatim>\<open>feature1-branch\<close> is bound to \<^verbatim>\<open>/X\<close>, the
  derived path is \<^verbatim>\<open>/home/u/repo-worktrees/feature1\<close>.\<close>

theorem branch_ownership_check_witness:
  "getWorktreePathForBranch world_elsewhere (branchForWorktree ''feature1'') repo [] =
     (Some ''/X'', [Exec cmd_worktree_list repo])
   \<and> createWorktree world_elsewhere ''feature1'' repo [] =
     (\<lparr>success = False, message = BranchCheckedOutElsewhere ''/X''\<rparr>,
      [Exec cmd_worktree_list repo])"
proof -
  have found: "getWorktreePathForBranch world_elsewhere (branchForWorktree ''feature1'') repo [] =
     (Some ''/X'', [Exec cmd_worktree_list repo])"
    by code_simp
  have neq: "path_resolve (cwd world_elsewhere) [''/X'']
               \<noteq> path_resolve (cwd world_elsewhere) [targetWorktreePath repo ''feature1'']"
    by code_simp
  show ?thesis using branch_ownership_check [OF found] found neq by simp
qed

subsection \<open>The registry\<close>

lemma proto_keys_valid: "n \<in> set object_prototype_keys \<Longrightarrow> isValidWorktreeName n"
  by (auto simp: object_prototype_keys_def isValidWorktreeName_def allowed_chars_def)

lemma invalid_absent:
  assumes "registry_ok repoPath reg" "\<not> isValidWorktreeName n"
  shows "viteServers_get reg n = Absent"
proof (cases "reg n")
  case None
  with assms(2) proto_keys_valid [of n] show ?thesis
    by (auto simp: viteServers_get_def)
next
  case (Some h)
  with assms show ?thesis by (simp add: registry_ok_def)
qed

lemma registry_ok_empty: "registry_ok repoPath Map.empty"
  by (simp add: registry_ok_def)

lemma registry_ok_update:
  "registry_ok repoPath reg \<Longrightarrow> isValidWorktreeName n \<Longrightarrow>
   registry_ok repoPath (reg(n \<mapsto> handle_for repoPath n))"
  by (simp add: registry_ok_def)

lemma ensure_server_ok:
  assumes "isValidWorktreeName n"
      and "\<lparr>root = r, base = b, allow = [repoPath, getWorktreesDir repoPath]\<rparr> = handle_for repoPath n"
      and "worktree_param req = n"
  shows "control_ok repoPath req (ensure_server reg n r b)"
  using assms by (simp add: ensure_server_def split: lookup.splits)

lemma main_valid: "isValidWorktreeName ''main''"
  by (simp add: isValidWorktreeName_def allowed_chars_def)

text \<open>Every move of a request keeps the registry and the request well formed.\<close>

lemma task_step_ok:
  assumes "registry_ok repoPath reg" "control_ok repoPath req c"
      and "task_step w repoPath req (reg, c, t) = (reg', c', t')"
  shows "registry_ok repoPath reg' \<and> control_ok repoPath req c'"
proof (cases c)
  case Arrived
  with assms show ?thesis
    by (auto simp: Let_def split: lookup.splits if_splits)
next
  case AwaitInstall
  with assms(2) have m: "worktree_param req = ''main''" by simp
  have "control_ok repoPath req (ensure_server reg ''main'' repoPath ''/main/'')"
    by (rule ensure_server_ok) (simp_all add: main_valid handle_for_def m)
  with assms AwaitInstall m show ?thesis
    by (auto simp: execCommand_def split: exec_result.splits)
next
  case AwaitCreateWorktree
  with assms(2) have v: "isValidWorktreeName (worktree_param req)" "worktree_param req \<noteq> ''main''"
    by simp_all
  have "control_ok repoPath req (ensure_server reg (worktree_param req)
          (path_join [getWorktreesDir repoPath, worktree_param req])
          (''/'' @ worktree_param req @ ''/''))"
    by (rule ensure_server_ok) (simp_all add: v handle_for_def targetWorktreePath_def)
  with assms AwaitCreateWorktree show ?thesis
    by (auto simp: Let_def split: prod.splits if_splits)
next
  case (AwaitCreateServer r b)
  with assms(2) have v: "isValidWorktreeName (worktree_param req)"
    and h: "\<lparr>root = r, base = b, allow = [repoPath, getWorktreesDir repoPath]\<rparr>
             = handle_for repoPath (worktree_param req)" by simp_all
  from registry_ok_update [OF assms(1) v]
  have "registry_ok repoPath
          (reg(worktree_param req \<mapsto> handle_for repoPath (worktree_param req)))" .
  with assms AwaitCreateServer h show ?thesis
    by (auto simp: Let_def split: sum.splits)
next
  case (AwaitIndex r)
  with assms show ?thesis by (auto simp: Let_def split: sum.splits)
next
  case (Done r)
  with assms show ?thesis by auto
qed

text \<open>Hence the registry is well formed after any request handled alone, and at every
  moment of any schedule of requests in flight together, from the empty registry on.\<close>

lemma handler_ok:
  assumes "registry_ok repoPath reg" "handler w repoPath req reg = (reg', c', t')"
  shows "registry_ok repoPath reg'"
proof -
  obtain r1 c1 t1 where s1: "task_step w repoPath req (reg, Arrived, []) = (r1, c1, t1)"
    by (cases "task_step w repoPath req (reg, Arrived, [])")
  obtain r2 c2 t2 where s2: "task_step w repoPath req (r1, c1, t1) = (r2, c2, t2)"
    by (cases "task_step w repoPath req (r1, c1, t1)")
  obtain r3 c3 t3 where s3: "task_step w repoPath req (r2, c2, t2) = (r3, c3, t3)"
    by (cases "task_step w repoPath req (r2, c2, t2)")
  obtain r4 c4 t4 where s4: "task_step w repoPath req (r3, c3, t3) = (r4, c4, t4)"
    by (cases "task_step w repoPath req (r3, c3, t3)")
  have o0: "control_ok repoPath req Arrived" by simp
  note o1 = task_step_ok [OF assms(1) o0 s1]
  note o2 = task_step_ok [OF conjunct1 [OF o1] conjunct2 [OF o1] s2]
  note o3 = task_step_ok [OF conjunct1 [OF o2] conjunct2 [OF o2] s3]
  note o4 = task_step_ok [OF conjunct1 [OF o3] conjunct2 [OF o3] s4]
  from assms(2) s1 s2 s3 s4 have "reg' = r4" by (simp add: handler_def)
  with o4 show ?thesis by simp
qed

lemma after_prepare_ok:
  assumes "isValidWorktreeName (worktree_param req)"
      and "\<lparr>root = r, base = b, allow = [repoPath, getWorktreesDir repoPath]\<rparr>
             = handle_for repoPath (worktree_param req)"
      and "after_prepare w repoPath req reg r b t = (reg', c', t')"
  shows "reg' = reg \<and> suspended_ok repoPath req c'"
  using assms by (auto simp: after_prepare_def split: lookup.splits)

lemma resume_createWorktree_ok:
  assumes "isValidWorktreeName (worktree_param req)" "worktree_param req \<noteq> ''main''"
      and "resume_createWorktree w repoPath req reg n t = (reg', c', t')"
  shows "reg' = reg \<and> suspended_ok repoPath req c'"
proof -
  obtain res full where cw: "createWorktree w (worktree_param req) repoPath (take n t) = (res, full)"
    by (cases "createWorktree w (worktree_param req) repoPath (take n t)")
  let ?chunk = "next_chunk (drop (length t) full)"
  consider (wait) "?chunk \<noteq> [] \<and> is_exec (last ?chunk)"
    | (fail) "\<not> (?chunk \<noteq> [] \<and> is_exec (last ?chunk))" "\<not> success res"
    | (ok) "\<not> (?chunk \<noteq> [] \<and> is_exec (last ?chunk))" "success res" by blast
  then show ?thesis
  proof cases
    case wait
    with assms cw show ?thesis by (auto simp: resume_createWorktree_def Let_def)
  next
    case fail
    with assms cw show ?thesis by (auto simp: resume_createWorktree_def Let_def)
  next
    case ok
    with assms(3) cw have ap: "after_prepare w repoPath req reg
        (path_join [getWorktreesDir repoPath, worktree_param req])
        (''/'' @ worktree_param req @ ''/'') (t @ ?chunk) = (reg', c', t')"
      by (auto simp: resume_createWorktree_def Let_def)
    show ?thesis
      by (rule after_prepare_ok [OF assms(1) _ ap])
         (simp add: handle_for_def targetWorktreePath_def assms(2))
  qed
qed

text \<open>Every move of a suspended request keeps the registry and the request well formed.\<close>

lemma move_ok:
  assumes "registry_ok repoPath reg" "suspended_ok repoPath req c"
      and "move w repoPath req (reg, c, t) = (reg', c', t')"
  shows "registry_ok repoPath reg' \<and> suspended_ok repoPath req c'"
proof (cases c)
  case Queued
  show ?thesis
  proof (cases "viteServers_get reg (worktree_param req) = Absent
                \<and> isValidWorktreeName (worktree_param req) \<and> worktree_param req \<noteq> ''main''")
    case True
    with assms(3) Queued have "resume_createWorktree w repoPath req reg (length t) t = (reg', c', t')"
      by (auto simp: Let_def isValidWorktreeName_def)
    from resume_createWorktree_ok [OF _ _ this] True assms(1) show ?thesis by simp
  next
    case False
    with assms Queued show ?thesis
      by (auto simp: Let_def split: lookup.splits if_splits)
  qed
next
  case (InCreateWorktree n)
  with assms(2) have v: "isValidWorktreeName (worktree_param req)" "worktree_param req \<noteq> ''main''"
    by simp_all
  from assms(3) InCreateWorktree
  have "resume_createWorktree w repoPath req reg n t = (reg', c', t')" by simp
  from resume_createWorktree_ok [OF v this] assms(1) show ?thesis by simp
next
  case OnInstall
  with assms(2) have m: "worktree_param req = ''main''" by simp
  have h: "\<lparr>root = repoPath, base = ''/main/'', allow = [repoPath, getWorktreesDir repoPath]\<rparr>
             = handle_for repoPath (worktree_param req)"
    by (simp add: handle_for_def m)
  have v: "isValidWorktreeName (worktree_param req)" by (simp add: m main_valid)
  from assms(3) OnInstall obtain t0 where
    "after_prepare w repoPath req reg repoPath ''/main/'' t0 = (reg', c', t')"
    by (auto split: exec_result.splits)
  from after_prepare_ok [OF v h this] assms(1) show ?thesis by simp
next
  case (OnCreateServer r b)
  with assms(2) have v: "isValidWorktreeName (worktree_param req)"
    and h: "\<lparr>root = r, base = b, allow = [repoPath, getWorktreesDir repoPath]\<rparr>
             = handle_for repoPath (worktree_param req)" by simp_all
  from registry_ok_update [OF assms(1) v]
  have "registry_ok repoPath
          (reg(worktree_param req \<mapsto> handle_for repoPath (worktree_param req)))" .
  with assms OnCreateServer h show ?thesis
    by (auto split: sum.splits)
next
  case (OnReadFile r)
  with assms show ?thesis by (auto split: sum.splits)
next
  case (OnTransform html)
  with assms show ?thesis by (auto split: sum.splits)
next
  case (Finished r)
  with assms show ?thesis by auto
qed

lemma advance_ok:
  assumes "system_ok repoPath s"
  shows "system_ok repoPath (advance repoPath i s)"
proof (cases "i < length (sys_tasks s)")
  case False
  with assms show ?thesis by (simp add: advance_def)
next
  case True
  let ?tk = "sys_tasks s ! i"
  obtain reg c t where st: "move (task_world ?tk) repoPath (task_request ?tk)
                   (sys_registry s, task_control ?tk, task_trace ?tk) = (reg, c, t)"
    by (cases "move (task_world ?tk) repoPath (task_request ?tk)
                   (sys_registry s, task_control ?tk, task_trace ?tk)")
  from assms True have r: "registry_ok repoPath (sys_registry s)"
    and all: "\<forall>tk\<in>set (sys_tasks s). suspended_ok repoPath (task_request tk) (task_control tk)"
    and c: "suspended_ok repoPath (task_request ?tk) (task_control ?tk)"
    by (auto simp: system_ok_def list_all_iff)
  note ok = move_ok [OF r c st]
  have "\<forall>tk\<in>set ((sys_tasks s)[i := ?tk\<lparr>task_control := c, task_trace := t\<rparr>]).
          suspended_ok repoPath (task_request tk) (task_control tk)"
  proof
    fix tk assume "tk \<in> set ((sys_tasks s)[i := ?tk\<lparr>task_control := c, task_trace := t\<rparr>])"
    then have "tk = ?tk\<lparr>task_control := c, task_trace := t\<rparr> \<or> tk \<in> set (sys_tasks s)"
      using set_update_subset_insert by fastforce
    with all ok show "suspended_ok repoPath (task_request tk) (task_control tk)" by auto
  qed
  with ok True st show ?thesis
    by (simp add: advance_def system_ok_def list_all_iff Let_def)
qed

lemma run_ok: "system_ok repoPath s \<Longrightarrow> system_ok repoPath (run repoPath schedule s)"
  by (induction schedule arbitrary: s) (auto simp: advance_ok)

lemma initial_system_ok:
  "system_ok repoPath
     \<lparr>sys_registry = Map.empty, sys_tasks = map (\<lambda>(w, req). new_task w req) arrivals,
      sys_trace = []\<rparr>"
  by (auto simp: system_ok_def registry_ok_empty list_all_iff new_task_def)

text \<open>
  C4. A workspace name with a character outside the letters, digits, dash and underscore
  is handed to the next handler: the handler answers with \<^verbatim>\<open>next()\<close>, leaves the registry
  as it was, and its only event is the warning it writes; no command is run, no file is
  touched, and \<^verbatim>\<open>createWorktree\<close> is not called. The registry is any well-formed one, as
  every registry the server can reach is.
\<close>

theorem invalid_name_falls_through:
  assumes "registry_ok repoPath reg"
      and "\<exists>c\<in>set (worktree_param req). c \<notin> set allowed_chars"
  shows "handler w repoPath req reg =
           (reg, Done NextHandler, [ConsoleWarn (InvalidWorktreeParam (worktree_param req))])
         \<and> filter is_external (snd (snd (handler w repoPath req reg))) = []"
proof -
  from assms(2) have inv: "\<not> isValidWorktreeName (worktree_param req)"
    by (auto simp: isValidWorktreeName_def list_all_iff)
  from invalid_absent [OF assms(1) inv] inv show ?thesis
    by (simp add: handler_def)
qed

theorem invalid_name_falls_through_witness:
  "registry_ok repo Map.empty
   \<and> (\<exists>c\<in>set (worktree_param (request_for ''a;rm'')). c \<notin> set allowed_chars)
   \<and> handler (example_world [] []) repo (request_for ''a;rm'') Map.empty =
       (Map.empty, Done NextHandler, [ConsoleWarn (InvalidWorktreeParam ''a;rm'')])"
proof -
  have bad: "\<exists>c\<in>set (worktree_param (request_for ''a;rm'')). c \<notin> set allowed_chars"
    by (simp add: request_for_def allowed_chars_def)
  from invalid_name_falls_through [OF registry_ok_empty bad, of "example_world [] []" repo]
  show ?thesis using bad by (simp add: registry_ok_empty request_for_def)
qed




subsection \<open>The stages of the provisioner\<close>

lemma exec_log_append:
  "exec_log w pre (xs @ ys) = exec_log w pre xs @ exec_log w (pre @ xs) ys"
  by (induction w pre xs rule: exec_log.induct) auto

lemma exec_log_mem: "(c, d, a) \<in> set (exec_log w pre ev) \<Longrightarrow> Exec c d \<in> set ev"
  by (induction w pre ev rule: exec_log.induct) auto

lemma cmd_facts:
  "\<not> prefix ''git worktree add '' cmd_worktree_list"
  "\<not> prefix ''git worktree add '' cmd_verify_base"
  "\<not> prefix ''git worktree add '' (cmd_show_ref b)"
  "\<not> prefix ''git worktree add '' cmd_pnpm_install"
  "cmd_worktree_list \<noteq> cmd_pnpm_install"
  "cmd_verify_base \<noteq> cmd_pnpm_install"
  "cmd_show_ref b \<noteq> cmd_pnpm_install"
  "prefix ''git worktree add '' (cmd_add_new_branch b tg)"
  "prefix ''git worktree add '' (cmd_add_existing_branch b tg)"
  "cmd_add_new_branch b tg \<noteq> cmd_pnpm_install"
  "cmd_add_existing_branch b tg \<noteq> cmd_pnpm_install"
  by (simp_all add: cmd_worktree_list_def cmd_verify_base_def cmd_show_ref_def
        cmd_pnpm_install_def cmd_add_new_branch_def cmd_add_existing_branch_def
        ACTUAL_MAIN_BRANCH_def)

text \<open>The last stage always runs one creation command; its result is decided by the
  answer to that command alone.\<close>

lemma add_and_install_cases:
  assumes "add_and_install w b tg r t = (res, t')"
  shows "\<exists>addCmd. prefix ''git worktree add '' addCmd \<and> addCmd \<noteq> cmd_pnpm_install \<and>
          ((\<exists>e. exec_answer w (t @ [Exec (cmd_show_ref b) r]) addCmd r = Rejected e
                \<and> res = \<lparr>success = False,
                          message = CaughtError (if e \<noteq> [] then e else ''Unknown error'')\<rparr>
                \<and> t' = t @ [Exec (cmd_show_ref b) r, Exec addCmd r, ConsoleError CreateWorktreeError])
         \<or> (\<exists>out err. exec_answer w (t @ [Exec (cmd_show_ref b) r]) addCmd r = Resolved out err
                \<and> res = \<lparr>success = True, message = CreatedWorktree out err\<rparr>
                \<and> (case exec_answer w (t @ [Exec (cmd_show_ref b) r, Exec addCmd r])
                           cmd_pnpm_install tg of
                      Resolved o2 e2 \<Rightarrow>
                        t' = t @ [Exec (cmd_show_ref b) r, Exec addCmd r, Exec cmd_pnpm_install tg]
                               @ (if e2 \<noteq> [] then [ConsoleWarn (PnpmInstallWarnings e2)] else [])
                    | Rejected e2 \<Rightarrow>
                        t' = t @ [Exec (cmd_show_ref b) r, Exec addCmd r, Exec cmd_pnpm_install tg,
                                  ConsoleError (PnpmInstallError
                                     (if e2 \<noteq> [] then e2 else ''Unknown error''))])))"
proof -
  let ?add = "if (case exec_answer w t (cmd_show_ref b) r of
                    Resolved out e \<Rightarrow> False | Rejected e \<Rightarrow> True)
              then cmd_add_new_branch b tg else cmd_add_existing_branch b tg"
  have p: "prefix ''git worktree add '' ?add \<and> ?add \<noteq> cmd_pnpm_install"
    using cmd_facts(8-11) [of b tg] by (simp split: exec_result.splits)
  from assms have "
          ((\<exists>e. exec_answer w (t @ [Exec (cmd_show_ref b) r]) ?add r = Rejected e
                \<and> res = \<lparr>success = False,
                          message = CaughtError (if e \<noteq> [] then e else ''Unknown error'')\<rparr>
                \<and> t' = t @ [Exec (cmd_show_ref b) r, Exec ?add r, ConsoleError CreateWorktreeError])
         \<or> (\<exists>out err. exec_answer w (t @ [Exec (cmd_show_ref b) r]) ?add r = Resolved out err
                \<and> res = \<lparr>success = True, message = CreatedWorktree out err\<rparr>
                \<and> (case exec_answer w (t @ [Exec (cmd_show_ref b) r, Exec ?add r])
                           cmd_pnpm_install tg of
                      Resolved o2 e2 \<Rightarrow>
                        t' = t @ [Exec (cmd_show_ref b) r, Exec ?add r, Exec cmd_pnpm_install tg]
                               @ (if e2 \<noteq> [] then [ConsoleWarn (PnpmInstallWarnings e2)] else [])
                    | Rejected e2 \<Rightarrow>
                        t' = t @ [Exec (cmd_show_ref b) r, Exec ?add r, Exec cmd_pnpm_install tg,
                                  ConsoleError (PnpmInstallError
                                     (if e2 \<noteq> [] then e2 else ''Unknown error''))])))"
    by (auto simp: add_and_install_def execCommand_def caught_def Let_def
          split: exec_result.splits if_splits)
  with p show ?thesis by blast
qed

lemma calm_simps [simp]:
  "calm r []"
  "calm r (ExistsSync p # ev) = calm r ev"
  "calm r (ReaddirSync p # ev) = calm r ev"
  "calm r (MkdirSync (getWorktreesDir r) # ev) = calm r ev"
  "calm r (ConsoleError d # ev) = calm r ev"
  "calm r (Exec cmd_verify_base dir # ev) = calm r ev"
  "calm r (Exec cmd_worktree_list dir # ev) = calm r ev"
  using cmd_facts by (auto simp: calm_def)

lemma calm_append: "calm r (xs @ ys) \<longleftrightarrow> calm r xs \<and> calm r ys"
  by (auto simp: calm_def)

lemma quiet_simps [simp]:
  "quiet []"
  "quiet (ExistsSync p # ev) = quiet ev"
  "quiet (ReaddirSync p # ev) = quiet ev"
  "quiet (ConsoleError d # ev) = quiet ev"
  "quiet (Exec cmd_worktree_list dir # ev) = quiet ev"
  using cmd_facts by (auto simp: quiet_def)

lemma quiet_append: "quiet (xs @ ys) \<longleftrightarrow> quiet xs \<and> quiet ys"
  by (auto simp: quiet_def)

lemma creation_is_mutation: "is_creation e \<Longrightarrow> is_mutation e"
  by (cases e) auto

lemma quiet_calm: "quiet ev \<Longrightarrow> calm r ev"
  by (auto simp: quiet_def calm_def dest: creation_is_mutation)

lemma verify_base_and_add_cases:
  assumes "verify_base_and_add w b tg r t = (res, t')"
  shows "(\<exists>pre. calm r pre \<and> Exec cmd_verify_base r \<in> set pre \<and>
          (t' = t @ pre \<and> \<not> success res \<and> (\<exists>d. message res = InvalidBaseBranch d)
           \<or> add_and_install w b tg r (t @ pre) = (res, t')))
        \<or> (\<exists>pre. calm r pre \<and> t' = t @ pre \<and> \<not> success res \<and> (\<exists>d. message res = CaughtError d))"
proof (cases "exists_answer w t (getWorktreesDir r)")
  case True
  let ?pre = "[ExistsSync (getWorktreesDir r), Exec cmd_verify_base r]"
  from assms True have "calm r ?pre \<and> Exec cmd_verify_base r \<in> set ?pre \<and>
          (t' = t @ ?pre \<and> \<not> success res \<and> (\<exists>d. message res = InvalidBaseBranch d)
           \<or> add_and_install w b tg r (t @ ?pre) = (res, t'))"
    by (auto simp: verify_base_and_add_def existsSync_def execCommand_def Let_def
          split: exec_result.splits)
  then show ?thesis by blast
next
  case False
  show ?thesis
  proof (cases "mkdir_answer w (t @ [ExistsSync (getWorktreesDir r)]) (getWorktreesDir r)")
    case (Inl e)
    let ?pre = "[ExistsSync (getWorktreesDir r), MkdirSync (getWorktreesDir r),
                 ConsoleError CreateWorktreeError]"
    from assms False Inl
    have "calm r ?pre \<and> t' = t @ ?pre \<and> \<not> success res \<and> (\<exists>d. message res = CaughtError d)"
      by (auto simp: verify_base_and_add_def existsSync_def mkdirSync_def caught_def Let_def)
    then show ?thesis by blast
  next
    case (Inr u)
    let ?pre = "[ExistsSync (getWorktreesDir r), MkdirSync (getWorktreesDir r),
                 Exec cmd_verify_base r]"
    from assms False Inr have "calm r ?pre \<and> Exec cmd_verify_base r \<in> set ?pre \<and>
          (t' = t @ ?pre \<and> \<not> success res \<and> (\<exists>d. message res = InvalidBaseBranch d)
           \<or> add_and_install w b tg r (t @ ?pre) = (res, t'))"
      by (auto simp: verify_base_and_add_def existsSync_def mkdirSync_def execCommand_def Let_def
          split: exec_result.splits)
    then show ?thesis by blast
  qed
qed

lemma stops_early_prepend:
  assumes "stops_early r res pre" "quiet ev"
  shows "stops_early r res (ev @ pre)"
  using assms
  by (cases "message res") (auto simp: stops_early_def calm_append quiet_append quiet_calm)

lemma verify_base_and_add_shape:
  assumes "verify_base_and_add w b tg r t = (res, t')"
  shows "(\<exists>pre. t' = t @ pre \<and> stops_early r res pre)
       \<or> (\<exists>pre. calm r pre \<and> Exec cmd_verify_base r \<in> set pre
                \<and> add_and_install w b tg r (t @ pre) = (res, t'))"
  using verify_base_and_add_cases [OF assms]
  by (auto simp: stops_early_def)

text \<open>A stage reached after a quiet stretch of events keeps its shape.\<close>

lemma shape_after_quiet:
  assumes "(\<exists>pre. t' = (t @ ev) @ pre \<and> stops_early r res pre)
       \<or> (\<exists>pre. calm r pre \<and> Exec cmd_verify_base r \<in> set pre
                \<and> add_and_install w b tg r ((t @ ev) @ pre) = (res, t'))"
      and "quiet ev"
  shows "(\<exists>pre. t' = t @ pre \<and> stops_early r res pre)
       \<or> (\<exists>pre. calm r pre \<and> Exec cmd_verify_base r \<in> set pre
                \<and> add_and_install w b tg r (t @ pre) = (res, t'))"
  using assms(1)
proof
  assume "\<exists>pre. t' = (t @ ev) @ pre \<and> stops_early r res pre"
  then obtain pre where "t' = t @ (ev @ pre)" "stops_early r res (ev @ pre)"
    using stops_early_prepend [OF _ assms(2)] by auto
  then show ?thesis by blast
next
  assume "\<exists>pre. calm r pre \<and> Exec cmd_verify_base r \<in> set pre
                \<and> add_and_install w b tg r ((t @ ev) @ pre) = (res, t')"
  then obtain pre where "calm r (ev @ pre)" "Exec cmd_verify_base r \<in> set (ev @ pre)"
     "add_and_install w b tg r (t @ (ev @ pre)) = (res, t')"
    using quiet_calm [OF assms(2), of r] by (auto simp: calm_append)
  then show ?thesis by blast
qed

lemma check_directory_shape:
  assumes "check_directory w b tg r t = (res, t')"
  shows "(\<exists>pre. t' = t @ pre \<and> stops_early r res pre)
       \<or> (\<exists>pre. calm r pre \<and> Exec cmd_verify_base r \<in> set pre
                \<and> add_and_install w b tg r (t @ pre) = (res, t'))"
proof -
  consider
      (absent) "\<not> exists_answer w t tg"
    | (throws) e where "exists_answer w t tg" "readdir_answer w (t @ [ExistsSync tg]) tg = Inl e"
    | (full) fs where "exists_answer w t tg" "readdir_answer w (t @ [ExistsSync tg]) tg = Inr fs" "fs \<noteq> []"
    | (empty) "exists_answer w t tg" "readdir_answer w (t @ [ExistsSync tg]) tg = Inr []"
    by (cases "readdir_answer w (t @ [ExistsSync tg]) tg") auto
  then show ?thesis
  proof cases
    case absent
    with assms have v: "verify_base_and_add w b tg r (t @ [ExistsSync tg]) = (res, t')"
      by (simp add: check_directory_def existsSync_def)
    show ?thesis
      by (rule shape_after_quiet [OF verify_base_and_add_shape [OF v]]) simp
  next
    case throws
    with assms have "t' = t @ [ExistsSync tg, ReaddirSync tg, ConsoleError CreateWorktreeError]"
       "\<not> success res" "\<exists>d. message res = CaughtError d"
      by (auto simp: check_directory_def existsSync_def readdirSync_def caught_def)
    then have "t' = t @ [ExistsSync tg, ReaddirSync tg, ConsoleError CreateWorktreeError]
        \<and> stops_early r res [ExistsSync tg, ReaddirSync tg, ConsoleError CreateWorktreeError]"
      by (auto simp: stops_early_def)
    then show ?thesis by blast
  next
    case full
    with assms have "t' = t @ [ExistsSync tg, ReaddirSync tg]"
       "\<not> success res" "message res = NonEmptyDirectory"
      by (auto simp: check_directory_def existsSync_def readdirSync_def)
    then have "t' = t @ [ExistsSync tg, ReaddirSync tg]
        \<and> stops_early r res [ExistsSync tg, ReaddirSync tg]"
      by (auto simp: stops_early_def)
    then show ?thesis by blast
  next
    case empty
    with assms have v: "verify_base_and_add w b tg r (t @ [ExistsSync tg, ReaddirSync tg]) = (res, t')"
      by (simp add: check_directory_def existsSync_def readdirSync_def)
    show ?thesis
      by (rule shape_after_quiet [OF verify_base_and_add_shape [OF v]]) simp
  qed
qed

lemma createWorktree_shape:
  assumes "createWorktree w name r t = (res, t')"
  shows "(\<exists>pre. t' = t @ pre \<and> stops_early r res pre)
       \<or> (\<exists>pre. calm r pre \<and> Exec cmd_verify_base r \<in> set pre
                \<and> add_and_install w (branchForWorktree name) (targetWorktreePath r name) r (t @ pre)
                    = (res, t'))"
proof -
  let ?b = "branchForWorktree name" and ?tg = "targetWorktreePath r name"
  obtain x t1 where look: "getWorktreePathForBranch w ?b r t = (x, t1)"
    by (cases "getWorktreePathForBranch w ?b r t")
  from getWorktreePathForBranch_trace [OF look] obtain ev where
    ev: "t1 = t @ Exec cmd_worktree_list r # ev" "\<forall>e\<in>set ev. \<not> is_mutation e \<and> \<not> is_creation e"
    by blast
  then have "quiet ev" by (simp add: quiet_def)
  then have q1: "quiet (Exec cmd_worktree_list r # ev)" by simp
  show ?thesis
  proof (cases x)
    case (Some p)
    with look have "p \<noteq> []" using getWorktreePathForBranch_Some by blast
    with assms look Some have "t' = t1"
      "(message res = AlreadyExists \<and> success res) \<or> (message res = BranchCheckedOutElsewhere p \<and> \<not> success res)"
      by (auto simp: createWorktree_def Let_def split: if_splits)
    with ev q1 have "t' = t @ (Exec cmd_worktree_list r # ev)
        \<and> stops_early r res (Exec cmd_worktree_list r # ev)"
      using quiet_calm [OF q1, of r] by (auto simp: stops_early_def)
    then show ?thesis by blast
  next
    case None
    let ?ev2 = "Exec cmd_worktree_list r # ev @ [Exec cmd_worktree_list r]"
    have q2: "quiet ?ev2" using q1 by (simp add: quiet_append)
    have t2: "t1 @ [Exec cmd_worktree_list r] = t @ ?ev2" using ev by simp
    show ?thesis
    proof (cases "exec_answer w t1 cmd_worktree_list r")
      case (Rejected e)
      with assms look None have "t' = t1 @ [Exec cmd_worktree_list r, ConsoleError CreateWorktreeError]"
        "\<not> success res" "\<exists>d. message res = CaughtError d"
        by (auto simp: createWorktree_def Let_def execCommand_def caught_def)
      with ev q2 have "t' = t @ (?ev2 @ [ConsoleError CreateWorktreeError])
        \<and> stops_early r res (?ev2 @ [ConsoleError CreateWorktreeError])"
        using quiet_calm [OF q2, of r] by (auto simp: stops_early_def calm_append)
      then show ?thesis by blast
    next
      case (Resolved out err)
      show ?thesis
      proof (cases "find_path_conflict (cwd w) ?tg ?b (split_blank out)")
        case (Some other)
        with assms look None Resolved have "t' = t1 @ [Exec cmd_worktree_list r]"
          "\<not> success res" "message res = PathOccupiedByOtherBranch other"
          by (auto simp: createWorktree_def Let_def execCommand_def)
        with t2 q2 have "t' = t @ ?ev2 \<and> stops_early r res ?ev2"
          using quiet_calm [OF q2, of r] by (auto simp: stops_early_def)
        then show ?thesis by blast
      next
        case None2: None
        with assms look None Resolved
        have "check_directory w ?b ?tg r (t1 @ [Exec cmd_worktree_list r]) = (res, t')"
          by (auto simp: createWorktree_def Let_def execCommand_def)
        then have c: "check_directory w ?b ?tg r (t @ ?ev2) = (res, t')" using t2 by simp
        show ?thesis
          by (rule shape_after_quiet [OF check_directory_shape [OF c] q2])
      qed
    qed
  qed
qed

subsection \<open>Conflicts and mutations\<close>

text \<open>
  C7, as the code has it. An attempt that ends with the branch checked out elsewhere, the
  path occupied by another branch, or a non-empty directory has performed no mutation at
  all. An attempt that ends with an invalid base branch has run no creation command and
  no installation, but the directory that holds the checkouts is created before the base
  branch is verified: that creation is the only mutation it can have performed.
\<close>

theorem conflicts_before_creation:
  assumes "createWorktree w name repoPath [] = (res, t)"
  shows "((\<exists>p. message res = BranchCheckedOutElsewhere p)
          \<or> (\<exists>b. message res = PathOccupiedByOtherBranch b)
          \<or> message res = NonEmptyDirectory
            \<longrightarrow> \<not> success res \<and> (\<forall>e\<in>set t. \<not> is_mutation e))
       \<and> ((\<exists>d. message res = InvalidBaseBranch d)
            \<longrightarrow> \<not> success res
               \<and> (\<forall>e\<in>set t. \<not> is_creation e
                    \<and> (is_mutation e \<longrightarrow> e = MkdirSync (getWorktreesDir repoPath))))"
  using createWorktree_shape [OF assms]
proof
  assume "\<exists>pre. t = [] @ pre \<and> stops_early repoPath res pre"
  then have "stops_early repoPath res t" by simp
  then show ?thesis
    by (cases "message res") (auto simp: stops_early_def quiet_def calm_def)
next
  assume "\<exists>pre. calm repoPath pre \<and> Exec cmd_verify_base repoPath \<in> set pre
            \<and> add_and_install w (branchForWorktree name) (targetWorktreePath repoPath name)
                 repoPath ([] @ pre) = (res, t)"
  then obtain pre where
    "add_and_install w (branchForWorktree name) (targetWorktreePath repoPath name) repoPath pre
       = (res, t)" by auto
  from add_and_install_cases [OF this]
  have "(\<exists>d. message res = CaughtError d) \<or> (\<exists>out err. message res = CreatedWorktree out err)"
    by auto
  then show ?thesis by auto
qed

text \<open>The claim as stated fails for the invalid base branch: in a repository without a
  branch \<^verbatim>\<open>main\<close> and without the container directory, the attempt creates the directory
  and then reports the invalid base branch.\<close>

theorem conflicts_before_creation_counterexample:
  "fst (createWorktree world_no_base ''feature1'' repo []) =
     \<lparr>success = False, message = InvalidBaseBranch ''fatal: Needed a single revision''\<rparr>
   \<and> filter is_mutation (snd (createWorktree world_no_base ''feature1'' repo [])) =
     [MkdirSync ''/home/u/repo-worktrees'']"
  by code_simp

text \<open>Both cases: the non-empty directory, and the invalid base branch.\<close>

theorem conflicts_before_creation_witness:
  "createWorktree world_occupied ''feature1'' repo [] =
     (\<lparr>success = False, message = NonEmptyDirectory\<rparr>,
      [Exec cmd_worktree_list repo, Exec cmd_worktree_list repo,
       ExistsSync ''/home/u/repo-worktrees/feature1'',
       ReaddirSync ''/home/u/repo-worktrees/feature1''])
   \<and> filter is_mutation (snd (createWorktree world_occupied ''feature1'' repo [])) = []
   \<and> createWorktree world_no_base ''feature1'' repo [] =
     (\<lparr>success = False, message = InvalidBaseBranch ''fatal: Needed a single revision''\<rparr>,
      [Exec cmd_worktree_list repo, Exec cmd_worktree_list repo,
       ExistsSync ''/home/u/repo-worktrees/feature1'',
       ExistsSync ''/home/u/repo-worktrees'', MkdirSync ''/home/u/repo-worktrees'',
       Exec cmd_verify_base repo])
   \<and> filter is_creation (snd (createWorktree world_no_base ''feature1'' repo [])) = []"
proof -
  have run: "createWorktree world_occupied ''feature1'' repo [] =
     (\<lparr>success = False, message = NonEmptyDirectory\<rparr>,
      [Exec cmd_worktree_list repo, Exec cmd_worktree_list repo,
       ExistsSync ''/home/u/repo-worktrees/feature1'',
       ReaddirSync ''/home/u/repo-worktrees/feature1''])"
    by code_simp
  have run2: "createWorktree world_no_base ''feature1'' repo [] =
     (\<lparr>success = False, message = InvalidBaseBranch ''fatal: Needed a single revision''\<rparr>,
      [Exec cmd_worktree_list repo, Exec cmd_worktree_list repo,
       ExistsSync ''/home/u/repo-worktrees/feature1'',
       ExistsSync ''/home/u/repo-worktrees'', MkdirSync ''/home/u/repo-worktrees'',
       Exec cmd_verify_base repo])"
    by code_simp
  from conflicts_before_creation [OF run] run
  have 1: "\<forall>e\<in>set (snd (createWorktree world_occupied ''feature1'' repo [])). \<not> is_mutation e"
    by simp
  from conflicts_before_creation [OF run2] run2
  have 2: "\<forall>e\<in>set (snd (createWorktree world_no_base ''feature1'' repo [])). \<not> is_creation e"
    by simp
  from run run2 1 2 show ?thesis by (simp add: filter_empty_conv)
qed

lemma exec_log_calm:
  assumes "calm r pre" "(c, d, a) \<in> set (exec_log w p0 pre)"
  shows "\<not> prefix ''git worktree add '' c \<and> c \<noteq> cmd_pnpm_install"
proof -
  from exec_log_mem [OF assms(2)] have "Exec c d \<in> set pre" .
  with assms(1) have "\<not> is_creation (Exec c d)" "\<not> is_mutation (Exec c d)"
    by (auto simp: calm_def)
  then show ?thesis by simp
qed

subsection \<open>Dependency installation after the creation\<close>

text \<open>
  C8. When the world has answered a checkout-creation command of the attempt with
  success, the attempt returns success with the output of that command, whatever the
  dependency installation answers. The installation is run in the new checkout; when it
  is rejected, the attempt ends with the diagnostic written for it, and the result is the
  same.
\<close>

theorem install_failure_keeps_success:
  assumes "createWorktree w name repoPath [] = (res, t)"
      and "(command, dir, Resolved out err) \<in> set (exec_log w [] t)"
      and "prefix ''git worktree add '' command"
  shows "res = \<lparr>success = True, message = CreatedWorktree out err\<rparr>
       \<and> Exec cmd_pnpm_install (targetWorktreePath repoPath name) \<in> set t
       \<and> (\<forall>e. (cmd_pnpm_install, targetWorktreePath repoPath name, Rejected e)
                 \<in> set (exec_log w [] t)
              \<longrightarrow> last t = ConsoleError (PnpmInstallError (if e \<noteq> [] then e else ''Unknown error'')))"
  using createWorktree_shape [OF assms(1)]
proof
  assume "\<exists>pre. t = [] @ pre \<and> stops_early repoPath res pre"
  then have "calm repoPath t" by (simp add: stops_early_def)
  from exec_log_calm [OF this assms(2)] assms(3) show ?thesis by simp
next
  let ?b = "branchForWorktree name" and ?tg = "targetWorktreePath repoPath name"
  assume "\<exists>pre. calm repoPath pre \<and> Exec cmd_verify_base repoPath \<in> set pre
            \<and> add_and_install w ?b ?tg repoPath ([] @ pre) = (res, t)"
  then obtain pre where calm: "calm repoPath pre"
    and add: "add_and_install w ?b ?tg repoPath pre = (res, t)" by auto
  from add_and_install_cases [OF add] obtain addCmd where
    pa: "prefix ''git worktree add '' addCmd" "addCmd \<noteq> cmd_pnpm_install"
    and alt: "(\<exists>e. exec_answer w (pre @ [Exec (cmd_show_ref ?b) repoPath]) addCmd repoPath = Rejected e
                \<and> t = pre @ [Exec (cmd_show_ref ?b) repoPath, Exec addCmd repoPath,
                              ConsoleError CreateWorktreeError])
         \<or> (\<exists>out err. exec_answer w (pre @ [Exec (cmd_show_ref ?b) repoPath]) addCmd repoPath
                         = Resolved out err
                \<and> res = \<lparr>success = True, message = CreatedWorktree out err\<rparr>
                \<and> (case exec_answer w (pre @ [Exec (cmd_show_ref ?b) repoPath, Exec addCmd repoPath])
                           cmd_pnpm_install ?tg of
                      Resolved o2 e2 \<Rightarrow>
                        t = pre @ [Exec (cmd_show_ref ?b) repoPath, Exec addCmd repoPath,
                                   Exec cmd_pnpm_install ?tg]
                               @ (if e2 \<noteq> [] then [ConsoleWarn (PnpmInstallWarnings e2)] else [])
                    | Rejected e2 \<Rightarrow>
                        t = pre @ [Exec (cmd_show_ref ?b) repoPath, Exec addCmd repoPath,
                                   Exec cmd_pnpm_install ?tg,
                                   ConsoleError (PnpmInstallError
                                     (if e2 \<noteq> [] then e2 else ''Unknown error''))]))"
    by blast
  note npre = exec_log_calm [OF calm]
  from alt show ?thesis
  proof
    assume "\<exists>e. exec_answer w (pre @ [Exec (cmd_show_ref ?b) repoPath]) addCmd repoPath = Rejected e
                \<and> t = pre @ [Exec (cmd_show_ref ?b) repoPath, Exec addCmd repoPath,
                              ConsoleError CreateWorktreeError]"
    then obtain e where rej: "exec_answer w (pre @ [Exec (cmd_show_ref ?b) repoPath]) addCmd repoPath = Rejected e"
      and t: "t = pre @ [Exec (cmd_show_ref ?b) repoPath, Exec addCmd repoPath,
                              ConsoleError CreateWorktreeError]" by blast
    from assms(2) have "(command, dir, Resolved out err) \<in> set (exec_log w [] pre)
       \<or> (command, dir, Resolved out err) = (cmd_show_ref ?b, repoPath, exec_answer w pre (cmd_show_ref ?b) repoPath)
       \<or> (command, dir, Resolved out err) = (addCmd, repoPath, Rejected e)"
      unfolding t by (auto simp: exec_log_append rej)
    moreover have "(command, dir, Resolved out err) \<notin> set (exec_log w [] pre)"
      using npre assms(3) by blast
    ultimately show ?thesis using assms(3) cmd_facts(3) [of ?b] by auto
  next
    assume "\<exists>out err. exec_answer w (pre @ [Exec (cmd_show_ref ?b) repoPath]) addCmd repoPath
                         = Resolved out err
                \<and> res = \<lparr>success = True, message = CreatedWorktree out err\<rparr>
                \<and> (case exec_answer w (pre @ [Exec (cmd_show_ref ?b) repoPath, Exec addCmd repoPath])
                           cmd_pnpm_install ?tg of
                      Resolved o2 e2 \<Rightarrow>
                        t = pre @ [Exec (cmd_show_ref ?b) repoPath, Exec addCmd repoPath,
                                   Exec cmd_pnpm_install ?tg]
                               @ (if e2 \<noteq> [] then [ConsoleWarn (PnpmInstallWarnings e2)] else [])
                    | Rejected e2 \<Rightarrow>
                        t = pre @ [Exec (cmd_show_ref ?b) repoPath, Exec addCmd repoPath,
                                   Exec cmd_pnpm_install ?tg,
                                   ConsoleError (PnpmInstallError
                                     (if e2 \<noteq> [] then e2 else ''Unknown error''))])"
    then obtain out' err' where
      ok: "exec_answer w (pre @ [Exec (cmd_show_ref ?b) repoPath]) addCmd repoPath = Resolved out' err'"
      and res: "res = \<lparr>success = True, message = CreatedWorktree out' err'\<rparr>"
      and tail: "(case exec_answer w (pre @ [Exec (cmd_show_ref ?b) repoPath, Exec addCmd repoPath])
                           cmd_pnpm_install ?tg of
                      Resolved o2 e2 \<Rightarrow>
                        t = pre @ [Exec (cmd_show_ref ?b) repoPath, Exec addCmd repoPath,
                                   Exec cmd_pnpm_install ?tg]
                               @ (if e2 \<noteq> [] then [ConsoleWarn (PnpmInstallWarnings e2)] else [])
                    | Rejected e2 \<Rightarrow>
                        t = pre @ [Exec (cmd_show_ref ?b) repoPath, Exec addCmd repoPath,
                                   Exec cmd_pnpm_install ?tg,
                                   ConsoleError (PnpmInstallError
                                     (if e2 \<noteq> [] then e2 else ''Unknown error''))])"
      by blast
    let ?pa = "exec_answer w (pre @ [Exec (cmd_show_ref ?b) repoPath, Exec addCmd repoPath])
                           cmd_pnpm_install ?tg"
    obtain dg where t: "t = pre @ [Exec (cmd_show_ref ?b) repoPath, Exec addCmd repoPath,
                                   Exec cmd_pnpm_install ?tg] @ dg"
      and dg: "\<forall>e\<in>set dg. \<not> is_external e"
      and rejd: "\<forall>e. ?pa = Rejected e \<longrightarrow>
                  dg = [ConsoleError (PnpmInstallError (if e \<noteq> [] then e else ''Unknown error''))]"
      using tail by (cases ?pa) auto
    have dglog: "exec_log w p dg = []" for p
      using dg by (induction w p dg rule: exec_log.induct) auto
    have log: "exec_log w [] t = exec_log w [] pre @
        [(cmd_show_ref ?b, repoPath, exec_answer w pre (cmd_show_ref ?b) repoPath),
         (addCmd, repoPath, Resolved out' err'),
         (cmd_pnpm_install, ?tg, ?pa)]"
      unfolding t by (simp add: exec_log_append ok dglog)
    have "(command, dir, Resolved out err) \<notin> set (exec_log w [] pre)"
      using npre assms(3) by blast
    with assms(2,3) cmd_facts(3) [of ?b] cmd_facts(4)
    have "(command, dir, Resolved out err) = (addCmd, repoPath, Resolved out' err')"
      unfolding log by auto
    with res have 1: "res = \<lparr>success = True, message = CreatedWorktree out err\<rparr>" by simp
    have 2: "Exec cmd_pnpm_install ?tg \<in> set t" unfolding t by simp
    have 3: "last t = ConsoleError (PnpmInstallError (if e \<noteq> [] then e else ''Unknown error''))"
      if "(cmd_pnpm_install, ?tg, Rejected e) \<in> set (exec_log w [] t)" for e
    proof -
      have "(cmd_pnpm_install, ?tg, Rejected e) \<notin> set (exec_log w [] pre)"
        using npre by blast
      with that pa(2) cmd_facts(7) [of ?b] have "?pa = Rejected e"
        unfolding log by auto
      with rejd show ?thesis unfolding t by simp
    qed
    from 1 2 3 show ?thesis by blast
  qed
qed

theorem install_failure_keeps_success_witness:
  "createWorktree world_install_fails ''feature1'' repo [] =
     (\<lparr>success = True, message = CreatedWorktree [] []\<rparr>,
      [Exec cmd_worktree_list repo, Exec cmd_worktree_list repo,
       ExistsSync ''/home/u/repo-worktrees/feature1'',
       ExistsSync ''/home/u/repo-worktrees'', MkdirSync ''/home/u/repo-worktrees'',
       Exec cmd_verify_base repo, Exec (cmd_show_ref ''feature1-branch'') repo,
       Exec (cmd_add_new_branch ''feature1-branch'' ''/home/u/repo-worktrees/feature1'') repo,
       Exec cmd_pnpm_install ''/home/u/repo-worktrees/feature1'',
       ConsoleError (PnpmInstallError ''ERR_PNPM_NO_PKG_MANIFEST'')])
   \<and> (cmd_pnpm_install, ''/home/u/repo-worktrees/feature1'', Rejected ''ERR_PNPM_NO_PKG_MANIFEST'')
       \<in> set (exec_log world_install_fails []
                 (snd (createWorktree world_install_fails ''feature1'' repo [])))"
proof -
  let ?t = "[Exec cmd_worktree_list repo, Exec cmd_worktree_list repo,
       ExistsSync ''/home/u/repo-worktrees/feature1'',
       ExistsSync ''/home/u/repo-worktrees'', MkdirSync ''/home/u/repo-worktrees'',
       Exec cmd_verify_base repo, Exec (cmd_show_ref ''feature1-branch'') repo,
       Exec (cmd_add_new_branch ''feature1-branch'' ''/home/u/repo-worktrees/feature1'') repo,
       Exec cmd_pnpm_install ''/home/u/repo-worktrees/feature1'',
       ConsoleError (PnpmInstallError ''ERR_PNPM_NO_PKG_MANIFEST'')]"
  have run: "createWorktree world_install_fails ''feature1'' repo [] =
     (\<lparr>success = True, message = CreatedWorktree [] []\<rparr>, ?t)"
    by code_simp
  have asked: "(cmd_add_new_branch ''feature1-branch'' ''/home/u/repo-worktrees/feature1'', repo,
                Resolved [] []) \<in> set (exec_log world_install_fails [] ?t)"
    by code_simp
  have failed: "(cmd_pnpm_install, ''/home/u/repo-worktrees/feature1'',
                 Rejected ''ERR_PNPM_NO_PKG_MANIFEST'') \<in> set (exec_log world_install_fails [] ?t)"
    by code_simp
  from install_failure_keeps_success [OF run asked cmd_facts(8)] run failed
  show ?thesis by simp
qed

subsection \<open>The target directory\<close>

lemma getCurrentBranch_commands:
  assumes "getCurrentBranch w r t = (x, t')" "Exec c d \<in> set t'"
  shows "Exec c d \<in> set t \<or> c \<in> {cmd_is_inside_work_tree, cmd_abbrev_ref_head}"
  using assms
  by (auto simp: getCurrentBranch_def execCommand_def Let_def
      split: exec_result.splits if_splits)

lemma getWorktreePathForBranch_commands:
  assumes "getWorktreePathForBranch w b r t = (x, t')" "Exec c d \<in> set t'"
  shows "Exec c d \<in> set t
         \<or> c \<in> {cmd_worktree_list, cmd_is_inside_work_tree, cmd_abbrev_ref_head}"
proof (cases "exec_answer w t cmd_worktree_list r")
  case (Resolved out e)
  with assms show ?thesis
    by (auto simp: getWorktreePathForBranch_def execCommand_def)
next
  case (Rejected e)
  let ?t1 = "t @ [Exec cmd_worktree_list r, ConsoleError (WorktreeListError b)]"
  obtain y t2 where g: "getCurrentBranch w r ?t1 = (y, t2)"
    by (cases "getCurrentBranch w r ?t1")
  from assms Rejected g have "t' = t2"
    by (simp add: getWorktreePathForBranch_def execCommand_def)
  with getCurrentBranch_commands [OF g, of c d] assms(2) show ?thesis by auto
qed

text \<open>
  C6. The lookup finds the derived branch nowhere, the listing resolves and no record of
  it binds the target path to another branch; the target path exists and reading it
  yields at least one entry. Then the attempt fails with the non-empty directory, having
  done nothing but the two listings, the existence test and the reading: no creation
  command, no mutation.
\<close>

theorem directory_occupancy_check:
  assumes "getWorktreePathForBranch w (branchForWorktree name) repoPath [] = (None, t1)"
      and "exec_answer w t1 cmd_worktree_list repoPath = Resolved out err"
      and "find_path_conflict (cwd w) (targetWorktreePath repoPath name)
             (branchForWorktree name) (split_blank out) = None"
      and "exists_answer w (t1 @ [Exec cmd_worktree_list repoPath]) (targetWorktreePath repoPath name)"
      and "readdir_answer w
             (t1 @ [Exec cmd_worktree_list repoPath, ExistsSync (targetWorktreePath repoPath name)])
             (targetWorktreePath repoPath name) = Inr filesInDir"
      and "filesInDir \<noteq> []"
  shows "createWorktree w name repoPath [] =
           (\<lparr>success = False, message = NonEmptyDirectory\<rparr>,
            t1 @ [Exec cmd_worktree_list repoPath,
                  ExistsSync (targetWorktreePath repoPath name),
                  ReaddirSync (targetWorktreePath repoPath name)])
         \<and> (\<forall>e\<in>set (snd (createWorktree w name repoPath [])).
               \<not> is_creation e \<and> \<not> is_mutation e)"
proof -
  from getWorktreePathForBranch_trace [OF assms(1)] obtain ev where
    "t1 = Exec cmd_worktree_list repoPath # ev" "\<forall>e\<in>set ev. \<not> is_mutation e \<and> \<not> is_creation e"
    by auto
  then have q: "\<forall>e\<in>set t1. \<not> is_creation e \<and> \<not> is_mutation e"
    using list_not_creation [of repoPath] by auto
  from assms have "createWorktree w name repoPath [] =
           (\<lparr>success = False, message = NonEmptyDirectory\<rparr>,
            t1 @ [Exec cmd_worktree_list repoPath,
                  ExistsSync (targetWorktreePath repoPath name),
                  ReaddirSync (targetWorktreePath repoPath name)])"
    by (simp add: createWorktree_def Let_def execCommand_def check_directory_def
          existsSync_def readdirSync_def)
  with q list_not_creation [of repoPath] show ?thesis by auto
qed

theorem directory_occupancy_check_witness:
  "getWorktreePathForBranch world_occupied (branchForWorktree ''feature1'') repo [] =
     (None, [Exec cmd_worktree_list repo])
   \<and> createWorktree world_occupied ''feature1'' repo [] =
     (\<lparr>success = False, message = NonEmptyDirectory\<rparr>,
      [Exec cmd_worktree_list repo, Exec cmd_worktree_list repo,
       ExistsSync (targetWorktreePath repo ''feature1''),
       ReaddirSync (targetWorktreePath repo ''feature1'')])"
proof -
  have 1: "getWorktreePathForBranch world_occupied (branchForWorktree ''feature1'') repo [] =
     (None, [Exec cmd_worktree_list repo])" by code_simp
  have 2: "exec_answer world_occupied [Exec cmd_worktree_list repo] cmd_worktree_list repo
             = Resolved listing_primary []" by code_simp
  have 3: "find_path_conflict (cwd world_occupied) (targetWorktreePath repo ''feature1'')
             (branchForWorktree ''feature1'') (split_blank listing_primary) = None" by code_simp
  have 4: "exists_answer world_occupied ([Exec cmd_worktree_list repo] @ [Exec cmd_worktree_list repo])
             (targetWorktreePath repo ''feature1'')" by code_simp
  have 5: "readdir_answer world_occupied
             ([Exec cmd_worktree_list repo] @ [Exec cmd_worktree_list repo, ExistsSync (targetWorktreePath repo ''feature1'')])
             (targetWorktreePath repo ''feature1'') = Inr [''notes.txt'']" by code_simp
  have 6: "[''notes.txt''] \<noteq> []" by simp
  from directory_occupancy_check [OF 1 2 3 4 5 6] 1 show ?thesis by simp
qed

lemma cmd_verify_distinct:
  "cmd_worktree_list \<noteq> cmd_verify_base"
  "cmd_is_inside_work_tree \<noteq> cmd_verify_base"
  "cmd_abbrev_ref_head \<noteq> cmd_verify_base"
  by (simp_all add: cmd_worktree_list_def cmd_verify_base_def cmd_is_inside_work_tree_def
        cmd_abbrev_ref_head_def ACTUAL_MAIN_BRANCH_def)

lemma add_and_install_trace:
  assumes "add_and_install w b tg r t = (res, t')"
  shows "\<exists>addCmd tl. prefix ''git worktree add '' addCmd
           \<and> t' = t @ Exec (cmd_show_ref b) r # Exec addCmd r # tl
           \<and> ((\<exists>d. message res = CaughtError d) \<or> (\<exists>out err. message res = CreatedWorktree out err))"
proof -
  let ?add = "if (case exec_answer w t (cmd_show_ref b) r of
                    Resolved out e \<Rightarrow> False | Rejected e \<Rightarrow> True)
              then cmd_add_new_branch b tg else cmd_add_existing_branch b tg"
  have p: "prefix ''git worktree add '' ?add"
    using cmd_facts(8,9) [of b tg] by (simp split: exec_result.splits)
  from assms have "\<exists>tl. t' = t @ Exec (cmd_show_ref b) r # Exec ?add r # tl
           \<and> ((\<exists>d. message res = CaughtError d) \<or> (\<exists>out err. message res = CreatedWorktree out err))"
    by (auto simp: add_and_install_def execCommand_def caught_def Let_def
          split: exec_result.splits if_splits)
  with p show ?thesis by blast
qed

lemma add_and_install_creates:
  assumes "add_and_install w b tg r t = (res, t')"
  shows "list_ex is_creation t'"
proof -
  from add_and_install_trace [OF assms] obtain addCmd tl where
    "prefix ''git worktree add '' addCmd" "t' = t @ Exec (cmd_show_ref b) r # Exec addCmd r # tl"
    by blast
  then have "is_creation (Exec addCmd r)" "Exec addCmd r \<in> set t'" by simp_all
  then show ?thesis unfolding list_ex_iff by blast
qed

text \<open>
  C10. The lookup finds the derived branch nowhere, the listing resolves and shows no
  conflict on the target path, and the target path exists and is empty; the container
  directory exists or can be created. Then the attempt does not fail with the non-empty
  directory: it runs the verification of the base branch, and whenever the world answers
  that verification with success, it runs a checkout-creation command.
\<close>

theorem empty_directory_proceeds:
  assumes "getWorktreePathForBranch w (branchForWorktree name) repoPath [] = (None, t1)"
      and "exec_answer w t1 cmd_worktree_list repoPath = Resolved out err"
      and "find_path_conflict (cwd w) (targetWorktreePath repoPath name)
             (branchForWorktree name) (split_blank out) = None"
      and "exists_answer w (t1 @ [Exec cmd_worktree_list repoPath]) (targetWorktreePath repoPath name)"
      and "readdir_answer w
             (t1 @ [Exec cmd_worktree_list repoPath, ExistsSync (targetWorktreePath repoPath name)])
             (targetWorktreePath repoPath name) = Inr []"
      and "exists_answer w
             (t1 @ [Exec cmd_worktree_list repoPath, ExistsSync (targetWorktreePath repoPath name),
                    ReaddirSync (targetWorktreePath repoPath name)])
             (getWorktreesDir repoPath)
           \<or> mkdir_answer w
             (t1 @ [Exec cmd_worktree_list repoPath, ExistsSync (targetWorktreePath repoPath name),
                    ReaddirSync (targetWorktreePath repoPath name),
                    ExistsSync (getWorktreesDir repoPath)])
             (getWorktreesDir repoPath) = Inr ()"
      and "createWorktree w name repoPath [] = (res, t)"
  shows "message res \<noteq> NonEmptyDirectory
       \<and> Exec cmd_verify_base repoPath \<in> set t
       \<and> (\<forall>vout verr. (cmd_verify_base, repoPath, Resolved vout verr) \<in> set (exec_log w [] t)
             \<longrightarrow> list_ex is_creation t)"
proof -
  let ?b = "branchForWorktree name" and ?tg = "targetWorktreePath repoPath name"
  let ?W = "getWorktreesDir repoPath"
  let ?t4 = "t1 @ [Exec cmd_worktree_list repoPath, ExistsSync ?tg, ReaddirSync ?tg]"
  from assms(1-5,7) have v: "verify_base_and_add w ?b ?tg repoPath ?t4 = (res, t)"
    by (simp add: createWorktree_def Let_def execCommand_def check_directory_def
          existsSync_def readdirSync_def)
  have nv4: "(cmd_verify_base, d, a) \<notin> set (exec_log w [] ?t4)" for d a
  proof
    assume "(cmd_verify_base, d, a) \<in> set (exec_log w [] ?t4)"
    from exec_log_mem [OF this] cmd_verify_distinct(1)
    have "Exec cmd_verify_base d \<in> set t1" by auto
    from getWorktreePathForBranch_commands [OF assms(1) this] cmd_verify_distinct
    show False by auto
  qed
  obtain mk where mk: "mk = [] \<or> mk = [MkdirSync ?W]"
    and step: "(case exec_answer w (?t4 @ ExistsSync ?W # mk) cmd_verify_base repoPath of
                  Rejected e \<Rightarrow> res = \<lparr>success = False,
                       message = InvalidBaseBranch (if e \<noteq> [] then e else ''undefined'')\<rparr>
                     \<and> t = ?t4 @ ExistsSync ?W # mk @ [Exec cmd_verify_base repoPath]
                | Resolved vo ve \<Rightarrow>
                    add_and_install w ?b ?tg repoPath
                      (?t4 @ ExistsSync ?W # mk @ [Exec cmd_verify_base repoPath]) = (res, t))"
  proof (cases "exists_answer w ?t4 ?W")
    case True
    with v have "(case exec_answer w (?t4 @ ExistsSync ?W # []) cmd_verify_base repoPath of
                  Rejected e \<Rightarrow> res = \<lparr>success = False,
                       message = InvalidBaseBranch (if e \<noteq> [] then e else ''undefined'')\<rparr>
                     \<and> t = ?t4 @ ExistsSync ?W # [] @ [Exec cmd_verify_base repoPath]
                | Resolved vo ve \<Rightarrow>
                    add_and_install w ?b ?tg repoPath
                      (?t4 @ ExistsSync ?W # [] @ [Exec cmd_verify_base repoPath]) = (res, t))"
      by (auto simp: verify_base_and_add_def existsSync_def execCommand_def Let_def
            split: exec_result.splits)
    then show ?thesis using that by blast
  next
    case False
    with assms(6) have "mkdir_answer w (?t4 @ [ExistsSync ?W]) ?W = Inr ()" by simp
    with False v have "(case exec_answer w (?t4 @ ExistsSync ?W # [MkdirSync ?W]) cmd_verify_base repoPath of
                  Rejected e \<Rightarrow> res = \<lparr>success = False,
                       message = InvalidBaseBranch (if e \<noteq> [] then e else ''undefined'')\<rparr>
                     \<and> t = ?t4 @ ExistsSync ?W # [MkdirSync ?W] @ [Exec cmd_verify_base repoPath]
                | Resolved vo ve \<Rightarrow>
                    add_and_install w ?b ?tg repoPath
                      (?t4 @ ExistsSync ?W # [MkdirSync ?W] @ [Exec cmd_verify_base repoPath]) = (res, t))"
      by (auto simp: verify_base_and_add_def existsSync_def mkdirSync_def execCommand_def Let_def
            split: exec_result.splits)
    then show ?thesis using that by blast
  qed
  let ?t5 = "?t4 @ ExistsSync ?W # mk"
  have log5: "exec_log w [] (?t5 @ [Exec cmd_verify_base repoPath]) =
        exec_log w [] ?t4 @ [(cmd_verify_base, repoPath, exec_answer w ?t5 cmd_verify_base repoPath)]"
    using mk by (auto simp: exec_log_append)
  show ?thesis
  proof (cases "exec_answer w ?t5 cmd_verify_base repoPath")
    case (Rejected e)
    with step have res: "message res = InvalidBaseBranch (if e \<noteq> [] then e else ''undefined'')"
      and t: "t = ?t5 @ [Exec cmd_verify_base repoPath]" by auto
    have "(cmd_verify_base, repoPath, Resolved vout verr) \<notin> set (exec_log w [] t)" for vout verr
      unfolding t log5 using nv4 Rejected by auto
    with res t show ?thesis by auto
  next
    case (Resolved vo ve)
    with step have add: "add_and_install w ?b ?tg repoPath (?t5 @ [Exec cmd_verify_base repoPath]) = (res, t)"
      by simp
    from add_and_install_creates [OF add] have c: "list_ex is_creation t" .
    from add_and_install_trace [OF add] obtain tl where
      m: "message res \<noteq> NonEmptyDirectory" and "t = (?t5 @ [Exec cmd_verify_base repoPath]) @ tl"
      by auto
    then have "Exec cmd_verify_base repoPath \<in> set t" by simp
    with c m show ?thesis by simp
  qed
qed

theorem empty_directory_proceeds_witness:
  "getWorktreePathForBranch world_empty_dir (branchForWorktree ''feature1'') repo [] =
     (None, [Exec cmd_worktree_list repo])
   \<and> readdir_answer world_empty_dir
        [Exec cmd_worktree_list repo, Exec cmd_worktree_list repo,
         ExistsSync (targetWorktreePath repo ''feature1'')]
        (targetWorktreePath repo ''feature1'') = Inr []
   \<and> fst (createWorktree world_empty_dir ''feature1'' repo []) =
        \<lparr>success = True, message = CreatedWorktree [] []\<rparr>
   \<and> Exec cmd_verify_base repo \<in> set (snd (createWorktree world_empty_dir ''feature1'' repo []))
   \<and> list_ex is_creation (snd (createWorktree world_empty_dir ''feature1'' repo []))"
proof -
  let ?tg = "targetWorktreePath repo ''feature1''"
  let ?run = "createWorktree world_empty_dir ''feature1'' repo []"
  have 1: "getWorktreePathForBranch world_empty_dir (branchForWorktree ''feature1'') repo [] =
     (None, [Exec cmd_worktree_list repo])" by code_simp
  have 2: "exec_answer world_empty_dir [Exec cmd_worktree_list repo] cmd_worktree_list repo
             = Resolved listing_primary []" by code_simp
  have 3: "find_path_conflict (cwd world_empty_dir) ?tg
             (branchForWorktree ''feature1'') (split_blank listing_primary) = None" by code_simp
  have 4: "exists_answer world_empty_dir ([Exec cmd_worktree_list repo] @ [Exec cmd_worktree_list repo])
             ?tg" by code_simp
  have 5: "readdir_answer world_empty_dir
             ([Exec cmd_worktree_list repo] @ [Exec cmd_worktree_list repo, ExistsSync ?tg])
             ?tg = Inr []" by code_simp
  have 6: "exists_answer world_empty_dir
             ([Exec cmd_worktree_list repo] @ [Exec cmd_worktree_list repo, ExistsSync ?tg, ReaddirSync ?tg])
             (getWorktreesDir repo)
           \<or> mkdir_answer world_empty_dir
             ([Exec cmd_worktree_list repo] @ [Exec cmd_worktree_list repo, ExistsSync ?tg, ReaddirSync ?tg,
                    ExistsSync (getWorktreesDir repo)])
             (getWorktreesDir repo) = Inr ()" by code_simp
  have 7: "?run = (fst ?run, snd ?run)" by simp
  have res: "fst ?run = \<lparr>success = True, message = CreatedWorktree [] []\<rparr>" by code_simp
  have asked: "(cmd_verify_base, repo, Resolved [] []) \<in> set (exec_log world_empty_dir [] (snd ?run))"
    by code_simp
  note proceeds = empty_directory_proceeds [OF 1 2 3 4 5 6 7]
  from proceeds asked have "list_ex is_creation (snd ?run)" by blast
  with proceeds 1 5 res show ?thesis by simp
qed

subsection \<open>Requests for the same workspace in flight together\<close>























subsection \<open>Two requests for one name, moving in turns\<close>





















end
